theory Spec2Isabelle
  imports Main
begin

section \<open>discord\_party: the Party object and its coroutines\<close>

text \<open>
  The module \<^verbatim>\<open>discord_party.py\<close> wraps a pypresence \<^verbatim>\<open>AioClient\<close> in a class
  \<^verbatim>\<open>Party\<close>. The class keeps a status dictionary behind properties, pushes it to the peer
  with \<^verbatim>\<open>update\<close>, and has three coroutines of its own that run on an asyncio event loop:
  \<^verbatim>\<open>leloop\<close> (inside \<^verbatim>\<open>update_loop\<close>), \<^verbatim>\<open>meantime\<close> (inside
  \<^verbatim>\<open>wait_for_player_join\<close>) and \<^verbatim>\<open>wait_for_player_join\<close> itself, plus the
  patched \<^verbatim>\<open>register_event\<close>.

  The embedding has two layers. The status dictionary and the connection handle are a record
  with pure functions on it. The coroutines are state machines: one constructor per
  suspension point (every \<^verbatim>\<open>await\<close> that can suspend), and a function that runs a
  coroutine from one suspension point to the next. They are scheduled by a model of the
  event loop with a simulated clock.
\<close>

subsection \<open>Values and exceptions\<close>

datatype exn =
    InvalidPipe
  | KeyError string
  | IndexError
  | TypeError
  | AttributeError
  | CancelledError
  | InvalidStateError
  | OtherError string

text \<open>Python values that occur in the status dictionary, in event payloads and as results.\<close>

datatype val = VNone | VInt int | VStr string | VList "val list"

text \<open>\<^verbatim>\<open>str.lower()\<close> on ASCII, as \<^verbatim>\<open>register_event\<close> applies it to the event name.\<close>

definition lower_char :: "char \<Rightarrow> char" where
  "lower_char c =
     (let n = (of_char c :: nat) in if 65 \<le> n \<and> n \<le> 90 then char_of (n + 32) else c)"

definition lower :: "string \<Rightarrow> string" where
  "lower s = map lower_char s"

subsection \<open>The protocol client and the Party object\<close>

text \<open>
  The closure \<^verbatim>\<open>handler\<close> that \<^verbatim>\<open>wait_for_player_join\<close> registers:
  \<^verbatim>\<open>fut.set_result(secret['secret'])\<close>, for the future with the given index.
\<close>

datatype handler = Handler nat

text \<open>
  The pypresence client is an external collaborator. The record keeps what this module
  touches or what a test double would observe: the \<^verbatim>\<open>_events\<close> dictionary that
  \<^verbatim>\<open>register_event\<close> writes, the keyword arguments of every \<^verbatim>\<open>set_activity\<close>
  call, the event names subscribed to, and the time (in clock ticks) the peer takes to answer
  a request.
\<close>

record client =
  events :: "string \<rightharpoonup> handler"
  sent :: "(string \<rightharpoonup> val) list"
  subscribed :: "string list"
  latency :: nat

text \<open>
  The fields of \<^verbatim>\<open>Party\<close>: \<^verbatim>\<open>_rpc\<close> (\<open>None\<close> once disconnected),
  \<^verbatim>\<open>_status\<close> and \<^verbatim>\<open>updating_loop\<close> (a task, by its index in the loop).
  The field \<^verbatim>\<open>loop\<close> is the event loop of the world record below.
\<close>

record party =
  rpc :: "client option"
  status :: "string \<rightharpoonup> val"
  updating_loop :: "nat option"

text \<open>\<^verbatim>\<open>Party.__init__\<close>; \<open>pid\<close> is the value of \<^verbatim>\<open>os.getpid()\<close>.\<close>

definition init :: "nat \<Rightarrow> int \<Rightarrow> party" where
  "init lat pid =
     \<lparr> rpc = Some \<lparr> events = Map.empty, sent = [], subscribed = [], latency = lat \<rparr>,
       status = [''pid'' \<mapsto> VInt pid],
       updating_loop = None \<rparr>"

text \<open>
  \<^verbatim>\<open>Party.start\<close>. The awaited \<^verbatim>\<open>self._rpc.start()\<close> is external; \<open>outcome\<close> is
  the exception it raised, if any.
\<close>

definition start :: "bool \<Rightarrow> exn option \<Rightarrow> party \<Rightarrow> exn + party" where
  "start raise_on_fail outcome self =
     (case rpc self of
        None \<Rightarrow> Inl AttributeError
      | Some c \<Rightarrow>
          (case outcome of
             None \<Rightarrow> Inr self
           | Some e \<Rightarrow>
               if e = InvalidPipe
               then (if raise_on_fail then Inl e else Inr (self\<lparr>rpc := None\<rparr>))
               else Inl e))"

text \<open>\<^verbatim>\<open>Party.__bool__\<close>\<close>

definition bool_party :: "party \<Rightarrow> bool" where
  "bool_party self = (rpc self \<noteq> None)"

subsection \<open>Status properties\<close>

text \<open>The getter, setter and deleter that \<^verbatim>\<open>_status_var\<close> builds for the key \<open>levar\<close>.\<close>

definition status_var_get :: "string \<Rightarrow> party \<Rightarrow> val" where
  "status_var_get levar self = (case status self levar of None \<Rightarrow> VNone | Some v \<Rightarrow> v)"

definition status_var_set :: "string \<Rightarrow> val \<Rightarrow> party \<Rightarrow> party" where
  "status_var_set levar v self = self\<lparr>status := (status self)(levar \<mapsto> v)\<rparr>"

definition status_var_del :: "string \<Rightarrow> party \<Rightarrow> exn + party" where
  "status_var_del levar self =
     (case status self levar of
        None \<Rightarrow> Inl (KeyError levar)
      | Some v \<Rightarrow> Inr (self\<lparr>status := (status self)(levar := None)\<rparr>))"

text \<open>
  The properties declared with \<^verbatim>\<open>@_status_var\<close> in the class body, with their aliases,
  and the dictionary key of each (the function's name unless the decorator names one).
\<close>

definition status_vars :: "(string \<times> string) list" where
  "status_vars =
     [(''party_id'', ''party_id''), (''id'', ''party_id''),
      (''join'', ''join''), (''secret'', ''join''),
      (''spectate'', ''spectate''), (''spectate_secret'', ''spectate''),
      (''state'', ''state''),
      (''details'', ''details''),
      (''start_time'', ''start''),
      (''end_time'', ''end''),
      (''large_image'', ''large_image''),
      (''large_text'', ''large_text''),
      (''small_image'', ''small_image''),
      (''small_text'', ''small_text'')]"

text \<open>Python's \<^verbatim>\<open>x[i]\<close> and \<^verbatim>\<open>x[i] = v\<close> on a value, for an index that is not negative.\<close>

definition getitem :: "val \<Rightarrow> nat \<Rightarrow> exn + val" where
  "getitem x i =
     (case x of
        VList xs \<Rightarrow> if i < length xs then Inr (xs ! i) else Inl IndexError
      | VStr s \<Rightarrow> if i < length s then Inr (VStr [s ! i]) else Inl IndexError
      | _ \<Rightarrow> Inl TypeError)"

definition setitem :: "val \<Rightarrow> nat \<Rightarrow> val \<Rightarrow> exn + val" where
  "setitem x i v =
     (case x of
        VList xs \<Rightarrow> if i < length xs then Inr (VList (xs[i := v])) else Inl IndexError
      | _ \<Rightarrow> Inl TypeError)"

text \<open>The getters of \<^verbatim>\<open>size\<close> and \<^verbatim>\<open>max\<close>: \<^verbatim>\<open>self._status['party_size'][k]\<close>.\<close>

definition party_size_get :: "nat \<Rightarrow> party \<Rightarrow> exn + val" where
  "party_size_get k self =
     (case status self ''party_size'' of
        None \<Rightarrow> Inl (KeyError ''party_size'')
      | Some x \<Rightarrow> getitem x k)"

text \<open>The setters of \<^verbatim>\<open>size\<close> (\<open>k = 0\<close>) and \<^verbatim>\<open>max\<close> (\<open>k = 1\<close>).\<close>

definition party_size_set :: "nat \<Rightarrow> val \<Rightarrow> party \<Rightarrow> exn + party" where
  "party_size_set k v self =
     (case status self ''party_size'' of
        None \<Rightarrow> Inr (self\<lparr>status := (status self)(''party_size'' \<mapsto> VList [v, v])\<rparr>)
      | Some x \<Rightarrow>
          (case setitem x k v of
             Inl e \<Rightarrow> Inl e
           | Inr x' \<Rightarrow> Inr (self\<lparr>status := (status self)(''party_size'' \<mapsto> x')\<rparr>)))"

text \<open>
  Reading and assigning a property of a Party by name. Only the status properties are
  modelled; \<^verbatim>\<open>party_size\<close> and \<^verbatim>\<open>party_max\<close> are the aliases of \<^verbatim>\<open>size\<close> and
  \<^verbatim>\<open>max\<close>.
\<close>

definition getprop :: "string \<Rightarrow> party \<Rightarrow> exn + val" where
  "getprop name self =
     (case map_of status_vars name of
        Some levar \<Rightarrow> Inr (status_var_get levar self)
      | None \<Rightarrow>
          if name = ''size'' \<or> name = ''party_size'' then party_size_get 0 self
          else if name = ''max'' \<or> name = ''party_max'' then party_size_get 1 self
          else Inl AttributeError)"

definition setprop :: "string \<Rightarrow> val \<Rightarrow> party \<Rightarrow> exn + party" where
  "setprop name v self =
     (case map_of status_vars name of
        Some levar \<Rightarrow> Inr (status_var_set levar v self)
      | None \<Rightarrow>
          if name = ''size'' \<or> name = ''party_size'' then party_size_set 0 v self
          else if name = ''max'' \<or> name = ''party_max'' then party_size_set 1 v self
          else Inl AttributeError)"

text \<open>A sequence of assignments, stopping at the first one that raises.\<close>

fun setprops :: "(string \<times> val) list \<Rightarrow> party \<Rightarrow> exn + party" where
  "setprops [] self = Inr self"
| "setprops ((name, v) # rest) self =
     (case setprop name v self of Inl e \<Rightarrow> Inl e | Inr self' \<Rightarrow> setprops rest self')"

text \<open>The last value assigned to one of the given names, if any.\<close>

fun last_set :: "string list \<Rightarrow> (string \<times> val) list \<Rightarrow> val option" where
  "last_set names [] = None"
| "last_set names ((name, v) # rest) =
     (case last_set names rest of
        Some u \<Rightarrow> Some u
      | None \<Rightarrow> if name \<in> set names then Some v else None)"

text \<open>
  What the specification expects in one half of the pair after a sequence of assignments:
  the value last assigned to that half, or, when that half was never assigned, the value of
  the first assignment of the sequence (which initialised both halves).
\<close>

definition expected_half :: "string \<Rightarrow> (string \<times> val) list \<Rightarrow> val" where
  "expected_half name ops =
     (case last_set [name] ops of
        Some v \<Rightarrow> v
      | None \<Rightarrow> (case ops of [] \<Rightarrow> VNone | (n, v) # rest \<Rightarrow> v))"

text \<open>The status properties other than \<^verbatim>\<open>size\<close> and \<^verbatim>\<open>max\<close>, without the aliases.\<close>

definition plain_fields :: "string list" where
  "plain_fields =
     [''party_id'', ''join'', ''spectate'', ''state'', ''details'', ''start_time'', ''end_time'',
      ''large_image'', ''large_text'', ''small_image'', ''small_text'']"

section \<open>The event loop\<close>

text \<open>
  asyncio is single-threaded and cooperative: a task runs until its coroutine suspends on an
  \<^verbatim>\<open>await\<close>, returns or raises. The model keeps a simulated clock in ticks (the
  \<^verbatim>\<open>delay\<close> arguments and the peer's latency are numbers of ticks), the list of tasks,
  the queue of tasks that are ready to run, and the futures created with
  \<^verbatim>\<open>create_future\<close>.
\<close>

datatype outcome = Returned val | Raised exn

datatype tstate = Ready | Sleeping nat | OnFuture nat | Finished outcome

datatype fut = Pending | Done val | FCancelled

text \<open>Where a coroutine is suspended: one constructor per \<^verbatim>\<open>await\<close> of its body.\<close>

datatype pc_update = U_start | U_set_activity

datatype pc_leloop = L_start | L_update | L_sleep

datatype pc_meantime = M_start | M_meanwhile | M_sleep

datatype pc_register = R_start | R_subscribe

datatype pc_wait = W_start | W_update | W_fut nat nat | W_unregister val

text \<open>
  The coroutines of the module, with the variables their bodies close over:
  \<^item> \<open>Update\<close>: \<^verbatim>\<open>Party.update\<close>, also \<^verbatim>\<open>await party\<close>;
  \<^item> \<open>Leloop delay\<close>: \<^verbatim>\<open>leloop\<close> of \<^verbatim>\<open>update_loop(delay)\<close>;
  \<^item> \<open>Meantime meanwhile delay\<close>: \<^verbatim>\<open>meantime\<close> of \<^verbatim>\<open>wait_for_player_join\<close>.
    The callback \<^verbatim>\<open>meanwhile\<close> is opaque: \<open>None\<close> is a callback that returns a plain
    value, \<open>Some k\<close> one that returns an awaitable which completes after \<open>k\<close> ticks;
    each call is counted in \<open>calls\<close>;
  \<^item> \<open>Register_event event func\<close>: the patched \<^verbatim>\<open>register_event\<close>;
  \<^item> \<open>Wait_for_player_join meanwhile delay\<close>: \<^verbatim>\<open>Party.wait_for_player_join\<close>.
  \<open>W_fut fid task\<close> keeps the locals \<^verbatim>\<open>fut\<close> and \<^verbatim>\<open>task\<close>, \<open>W_unregister secret\<close>
  the local \<^verbatim>\<open>secret\<close>.
\<close>

datatype coro =
    Update pc_update
  | Leloop nat pc_leloop
  | Meantime "nat option" nat pc_meantime
  | Register_event string handler pc_register
  | Wait_for_player_join "nat option" nat pc_wait

text \<open>
  How a step of a coroutine ends: suspended until a timer fires (\<^verbatim>\<open>asyncio.sleep\<close>,
  or the peer's answer to a request), suspended on a future, returned, or raised.
\<close>

datatype susp = Await_timer nat | Await_future nat | Return val | Raise exn

record task =
  coro :: coro
  tstate :: tstate
  must_cancel :: bool

text \<open>What the environment does at a given time: the peer sends an event, or the caller
  that holds a task cancels it.\<close>

datatype ext = Event string "(string \<times> val) list" | Cancel nat

text \<open>
  The world: the Party object, its event loop (\<open>now\<close>, \<open>tasks\<close>, \<open>ready\<close>,
  \<open>futs\<close>) and the environment (\<open>inbox\<close>: what will happen and when; \<open>calls\<close>: how
  often \<^verbatim>\<open>meanwhile\<close> has been called; \<open>errors\<close>: exceptions raised inside event
  callbacks).
\<close>

record world =
  party :: party
  now :: nat
  tasks :: "task list"
  ready :: "nat list"
  futs :: "fut list"
  calls :: nat
  errors :: "exn list"
  inbox :: "(nat \<times> ext) list"

definition world_of :: "party \<Rightarrow> (nat \<times> ext) list \<Rightarrow> world" where
  "world_of p evs =
     \<lparr> party = p, now = 0, tasks = [], ready = [], futs = [], calls = 0, errors = [],
       inbox = evs \<rparr>"

subsection \<open>Tasks and futures\<close>

text \<open>\<^verbatim>\<open>loop.create_task(coro)\<close>: the task is scheduled, nothing of it runs yet.\<close>

definition create_task :: "coro \<Rightarrow> world \<Rightarrow> nat \<times> world" where
  "create_task c w =
     (length (tasks w),
      w\<lparr>tasks := tasks w @ [\<lparr>coro = c, tstate = Ready, must_cancel = False\<rparr>],
        ready := ready w @ [length (tasks w)]\<rparr>)"

text \<open>\<^verbatim>\<open>loop.create_future()\<close>\<close>

definition create_future :: "world \<Rightarrow> nat \<times> world" where
  "create_future w = (length (futs w), w\<lparr>futs := futs w @ [Pending]\<rparr>)"

text \<open>
  Make ready every task whose state satisfies \<open>P\<close>; the second component lists them, in
  the order of their indices (\<open>i\<close> is the index of the first task of the list).
\<close>

fun wake :: "(tstate \<Rightarrow> bool) \<Rightarrow> nat \<Rightarrow> task list \<Rightarrow> task list \<times> nat list" where
  "wake P i [] = ([], [])"
| "wake P i (t # ts) =
     (case wake P (Suc i) ts of
        (ts', r) \<Rightarrow> if P (tstate t) then (t\<lparr>tstate := Ready\<rparr> # ts', i # r) else (t # ts', r))"

definition wake_all :: "(tstate \<Rightarrow> bool) \<Rightarrow> world \<Rightarrow> world" where
  "wake_all P w =
     (case wake P 0 (tasks w) of (ts', r) \<Rightarrow> w\<lparr>tasks := ts', ready := ready w @ r\<rparr>)"

text \<open>
  \<^verbatim>\<open>Future.set_result\<close>: a future is resolved once, a second call raises; the tasks
  waiting on it are scheduled.
\<close>

definition set_result :: "nat \<Rightarrow> val \<Rightarrow> world \<Rightarrow> exn + world" where
  "set_result fid v w =
     (if fid < length (futs w) \<and> futs w ! fid = Pending
      then Inr (wake_all (\<lambda>s. s = OnFuture fid) (w\<lparr>futs := (futs w)[fid := Done v]\<rparr>))
      else Inl InvalidStateError)"

text \<open>
  \<^verbatim>\<open>Task.cancel()\<close>: nothing for a finished task; otherwise the task is scheduled and
  \<^verbatim>\<open>CancelledError\<close> is thrown into its coroutine at the point where it is suspended,
  on its next step. A future the task waits on is cancelled.
\<close>

definition cancel :: "nat \<Rightarrow> world \<Rightarrow> world" where
  "cancel tid w =
     (if tid < length (tasks w) then
        (let t = tasks w ! tid in
         case tstate t of
           Finished r \<Rightarrow> w
         | Ready \<Rightarrow> w\<lparr>tasks := (tasks w)[tid := t\<lparr>must_cancel := True\<rparr>]\<rparr>
         | Sleeping d \<Rightarrow>
             w\<lparr>tasks := (tasks w)[tid := t\<lparr>tstate := Ready, must_cancel := True\<rparr>],
               ready := ready w @ [tid]\<rparr>
         | OnFuture f \<Rightarrow>
             w\<lparr>tasks := (tasks w)[tid := t\<lparr>tstate := Ready, must_cancel := True\<rparr>],
               ready := ready w @ [tid],
               futs := (if f < length (futs w) \<and> futs w ! f = Pending
                        then (futs w)[f := FCancelled] else futs w)\<rparr>)
      else w)"

subsection \<open>Requests to the protocol client\<close>

text \<open>Apply \<open>f\<close> to the client the Party holds, if it holds one.\<close>

definition with_client :: "(client \<Rightarrow> client) \<Rightarrow> world \<Rightarrow> world" where
  "with_client f w = w\<lparr>party := (party w)\<lparr>rpc := map_option f (rpc (party w))\<rparr>\<rparr>"

text \<open>
  \<^verbatim>\<open>Party.update\<close> up to its \<^verbatim>\<open>await\<close>: on a disconnected Party nothing happens and
  the coroutine goes on (\<open>None\<close>); otherwise the whole status dictionary is sent as the
  keyword arguments of \<^verbatim>\<open>set_activity\<close> and the coroutine waits for the answer
  (\<open>Some\<close> of its latency).
\<close>

definition update_begin :: "world \<Rightarrow> nat option \<times> world" where
  "update_begin w =
     (case rpc (party w) of
        None \<Rightarrow> (None, w)
      | Some c \<Rightarrow>
          (Some (latency c),
           with_client (\<lambda>c. c\<lparr>sent := sent c @ [status (party w)]\<rparr>) w))"

subsection \<open>The coroutines\<close>

text \<open>
  Each function runs its coroutine from the suspension point \<open>pc\<close> to the next one.
  \<open>cancelled\<close> says that \<^verbatim>\<open>CancelledError\<close> is thrown in at \<open>pc\<close> instead of the
  awaited result. A coroutine that is cancelled before its first step never enters its body.
\<close>

text \<open>\<^verbatim>\<open>Party.update\<close>\<close>

fun resume_update :: "pc_update \<Rightarrow> bool \<Rightarrow> world \<Rightarrow> pc_update \<times> susp \<times> world" where
  "resume_update U_start cancelled w =
     (if cancelled then (U_start, Raise CancelledError, w)
      else case update_begin w of
             (Some lat, w') \<Rightarrow> (U_set_activity, Await_timer lat, w')
           | (None, w') \<Rightarrow> (U_start, Return VNone, w'))"
| "resume_update U_set_activity cancelled w =
     (if cancelled then (U_set_activity, Raise CancelledError, w)
      else (U_set_activity, Return VNone, w))"

text \<open>
  \<^verbatim>\<open>leloop\<close>: \<^verbatim>\<open>while 1: await self.update(); await asyncio.sleep(delay)\<close> inside
  \<^verbatim>\<open>try ... except CancelledError: return\<close>. \<open>leloop_iteration\<close> is the loop body
  from its top to the first suspension.
\<close>

definition leloop_iteration :: "nat \<Rightarrow> world \<Rightarrow> pc_leloop \<times> susp \<times> world" where
  "leloop_iteration delay w =
     (case update_begin w of
        (Some lat, w') \<Rightarrow> (L_update, Await_timer lat, w')
      | (None, w') \<Rightarrow> (L_sleep, Await_timer delay, w'))"

fun resume_leloop :: "nat \<Rightarrow> pc_leloop \<Rightarrow> bool \<Rightarrow> world \<Rightarrow> pc_leloop \<times> susp \<times> world" where
  "resume_leloop delay L_start cancelled w =
     (if cancelled then (L_start, Raise CancelledError, w) else leloop_iteration delay w)"
| "resume_leloop delay L_update cancelled w =
     (if cancelled then (L_update, Return VNone, w) else (L_sleep, Await_timer delay, w))"
| "resume_leloop delay L_sleep cancelled w =
     (if cancelled then (L_sleep, Return VNone, w) else leloop_iteration delay w)"

text \<open>
  \<^verbatim>\<open>meantime\<close>: inside \<^verbatim>\<open>try ... except CancelledError: return\<close>, the callback is
  called, awaited if its result is awaitable, and \<^verbatim>\<open>asyncio.sleep(delay)\<close> is awaited.
  There is no loop in the body: after the sleep the coroutine returns.
\<close>

fun resume_meantime ::
  "nat option \<Rightarrow> nat \<Rightarrow> pc_meantime \<Rightarrow> bool \<Rightarrow> world \<Rightarrow> pc_meantime \<times> susp \<times> world" where
  "resume_meantime meanwhile delay M_start cancelled w =
     (if cancelled then (M_start, Raise CancelledError, w)
      else case meanwhile of
             Some k \<Rightarrow> (M_meanwhile, Await_timer k, w\<lparr>calls := calls w + 1\<rparr>)
           | None \<Rightarrow> (M_sleep, Await_timer delay, w\<lparr>calls := calls w + 1\<rparr>))"
| "resume_meantime meanwhile delay M_meanwhile cancelled w =
     (if cancelled then (M_meanwhile, Return VNone, w) else (M_sleep, Await_timer delay, w))"
| "resume_meantime meanwhile delay M_sleep cancelled w = (M_sleep, Return VNone, w)"

text \<open>
  \<^verbatim>\<open>register_event(self, event, func)\<close>: \<open>func\<close> is callable by its type, so the
  \<^verbatim>\<open>TypeError\<close> branch is not reachable. \<^verbatim>\<open>subscribe\<close> is a request to the peer;
  the handler is stored under the lower-cased name once the answer is there. A client that
  the Party has dropped in the meantime is no longer observed.
\<close>

fun resume_register ::
  "string \<Rightarrow> handler \<Rightarrow> pc_register \<Rightarrow> bool \<Rightarrow> world \<Rightarrow> pc_register \<times> susp \<times> world" where
  "resume_register event func R_start cancelled w =
     (if cancelled then (R_start, Raise CancelledError, w)
      else (R_subscribe,
            Await_timer (case rpc (party w) of None \<Rightarrow> 0 | Some c \<Rightarrow> latency c),
            with_client (\<lambda>c. c\<lparr>subscribed := subscribed c @ [event]\<rparr>) w))"
| "resume_register event func R_subscribe cancelled w =
     (if cancelled then (R_subscribe, Raise CancelledError, w)
      else (R_subscribe, Return VNone,
            with_client (\<lambda>c. c\<lparr>events := (events c)(lower event \<mapsto> func)\<rparr>) w))"

text \<open>
  \<^verbatim>\<open>Party.on_player_join(func)\<close>: the argument of \<^verbatim>\<open>create_task\<close> is evaluated first,
  and \<^verbatim>\<open>self._rpc.register_event\<close> on a Party without a client is an attribute lookup on
  \<^verbatim>\<open>None\<close>. Otherwise the registration is only scheduled, as a task of its own.
\<close>

definition on_player_join :: "handler \<Rightarrow> world \<Rightarrow> exn + world" where
  "on_player_join func w =
     (case rpc (party w) of
        None \<Rightarrow> Inl AttributeError
      | Some c \<Rightarrow> Inr (snd (create_task (Register_event ''ACTIVITY_JOIN'' func R_start) w)))"

definition on_spectate :: "handler \<Rightarrow> world \<Rightarrow> exn + world" where
  "on_spectate func w =
     (case rpc (party w) of
        None \<Rightarrow> Inl AttributeError
      | Some c \<Rightarrow> Inr (snd (create_task (Register_event ''ACTIVITY_SPECTATE'' func R_start) w)))"

text \<open>
  \<^verbatim>\<open>wait_for_player_join\<close> from the end of \<^verbatim>\<open>await self.update()\<close> to
  \<^verbatim>\<open>await fut\<close>: the future is created, the handler is passed to
  \<^verbatim>\<open>on_player_join\<close>, the task of \<^verbatim>\<open>meantime\<close> is created.
\<close>

definition wait_after_update :: "nat option \<Rightarrow> nat \<Rightarrow> world \<Rightarrow> pc_wait \<times> susp \<times> world" where
  "wait_after_update meanwhile delay w =
     (case create_future w of
        (fid, w1) \<Rightarrow>
          (case on_player_join (Handler fid) w1 of
             Inl e \<Rightarrow> (W_update, Raise e, w1)
           | Inr w2 \<Rightarrow>
               (case create_task (Meantime meanwhile delay M_start) w2 of
                  (task, w3) \<Rightarrow> (W_fut fid task, Await_future fid, w3))))"

text \<open>
  From the result of \<^verbatim>\<open>await fut\<close> to \<^verbatim>\<open>await self._rpc.unregister_event(...)\<close>:
  the task of \<^verbatim>\<open>meantime\<close> is cancelled and the request to unsubscribe is made.
\<close>

definition wait_after_fut :: "val \<Rightarrow> nat \<Rightarrow> nat \<Rightarrow> world \<Rightarrow> pc_wait \<times> susp \<times> world" where
  "wait_after_fut secret fid task w =
     (let w1 = cancel task w in
      case rpc (party w1) of
        None \<Rightarrow> (W_fut fid task, Raise AttributeError, w1)
      | Some c \<Rightarrow> (W_unregister secret, Await_timer (latency c), w1))"

text \<open>
  \<^verbatim>\<open>Party.wait_for_player_join\<close>. No \<^verbatim>\<open>try\<close> surrounds any of its awaits: a
  \<^verbatim>\<open>CancelledError\<close> thrown in at one of them leaves the coroutine at once.
\<close>

fun resume_wait ::
  "nat option \<Rightarrow> nat \<Rightarrow> pc_wait \<Rightarrow> bool \<Rightarrow> world \<Rightarrow> pc_wait \<times> susp \<times> world" where
  "resume_wait meanwhile delay W_start cancelled w =
     (if cancelled then (W_start, Raise CancelledError, w)
      else case update_begin w of
             (Some lat, w') \<Rightarrow> (W_update, Await_timer lat, w')
           | (None, w') \<Rightarrow> wait_after_update meanwhile delay w')"
| "resume_wait meanwhile delay W_update cancelled w =
     (if cancelled then (W_update, Raise CancelledError, w)
      else wait_after_update meanwhile delay w)"
| "resume_wait meanwhile delay (W_fut fid task) cancelled w =
     (if cancelled then (W_fut fid task, Raise CancelledError, w)
      else if fid < length (futs w) then
        (case futs w ! fid of
           Done secret \<Rightarrow> wait_after_fut secret fid task w
         | FCancelled \<Rightarrow> (W_fut fid task, Raise CancelledError, w)
         | Pending \<Rightarrow> (W_fut fid task, Await_future fid, w))
      else (W_fut fid task, Await_future fid, w))"
| "resume_wait meanwhile delay (W_unregister secret) cancelled w =
     (if cancelled then (W_unregister secret, Raise CancelledError, w)
      else (W_unregister secret, Return secret,
            with_client (\<lambda>c. c\<lparr>events := (events c)(lower ''ACTIVITY_JOIN'' := None)\<rparr>) w))"

fun resume :: "coro \<Rightarrow> bool \<Rightarrow> world \<Rightarrow> coro \<times> susp \<times> world" where
  "resume (Update pc) cancelled w =
     (case resume_update pc cancelled w of (pc', r) \<Rightarrow> (Update pc', r))"
| "resume (Leloop delay pc) cancelled w =
     (case resume_leloop delay pc cancelled w of (pc', r) \<Rightarrow> (Leloop delay pc', r))"
| "resume (Meantime meanwhile delay pc) cancelled w =
     (case resume_meantime meanwhile delay pc cancelled w of
        (pc', r) \<Rightarrow> (Meantime meanwhile delay pc', r))"
| "resume (Register_event event func pc) cancelled w =
     (case resume_register event func pc cancelled w of
        (pc', r) \<Rightarrow> (Register_event event func pc', r))"
| "resume (Wait_for_player_join meanwhile delay pc) cancelled w =
     (case resume_wait meanwhile delay pc cancelled w of
        (pc', r) \<Rightarrow> (Wait_for_player_join meanwhile delay pc', r))"

subsection \<open>The synchronous methods that touch the loop\<close>

text \<open>\<^verbatim>\<open>Party.update_loop(delay)\<close>: creates the task and stores it; returns it.\<close>

definition update_loop :: "nat \<Rightarrow> world \<Rightarrow> nat \<times> world" where
  "update_loop delay w =
     (case create_task (Leloop delay L_start) w of
        (tid, w') \<Rightarrow> (tid, w'\<lparr>party := (party w')\<lparr>updating_loop := Some tid\<rparr>\<rparr>))"

text \<open>\<^verbatim>\<open>Party.stop_updating_loop()\<close>\<close>

definition stop_updating_loop :: "world \<Rightarrow> world" where
  "stop_updating_loop w =
     (case updating_loop (party w) of None \<Rightarrow> w | Some tid \<Rightarrow> cancel tid w)"

text \<open>\<^verbatim>\<open>Party.close()\<close>\<close>

definition close :: "world \<Rightarrow> world" where
  "close w =
     (let w1 = stop_updating_loop w in
      case rpc (party w1) of
        None \<Rightarrow> w1
      | Some c \<Rightarrow> w1\<lparr>party := (party w1)\<lparr>rpc := None\<rparr>\<rparr>)"

subsection \<open>Events from the peer\<close>

text \<open>
  The closure \<^verbatim>\<open>handler(secret)\<close>: \<^verbatim>\<open>fut.set_result(secret['secret'])\<close>. The payload
  is a dictionary, given as its list of items.
\<close>

definition call_handler :: "handler \<Rightarrow> (string \<times> val) list \<Rightarrow> world \<Rightarrow> exn + world" where
  "call_handler h payload w =
     (case h of
        Handler fid \<Rightarrow>
          (case map_of payload ''secret'' of
             None \<Rightarrow> Inl (KeyError ''secret'')
           | Some s \<Rightarrow> set_result fid s w))"

text \<open>
  The client's \<^verbatim>\<open>on_event\<close>, as far as this module relies on it: an event whose
  lower-cased name has a handler in \<^verbatim>\<open>_events\<close> is passed to the handler; any other
  event is dropped. An exception of the handler does not reach any task of this module; it is
  recorded.
\<close>

definition on_event :: "string \<Rightarrow> (string \<times> val) list \<Rightarrow> world \<Rightarrow> world" where
  "on_event name payload w =
     (case rpc (party w) of
        None \<Rightarrow> w
      | Some c \<Rightarrow>
          (case events c (lower name) of
             None \<Rightarrow> w
           | Some h \<Rightarrow>
               (case call_handler h payload w of
                  Inl e \<Rightarrow> w\<lparr>errors := errors w @ [e]\<rparr>
                | Inr w' \<Rightarrow> w')))"

fun external :: "ext \<Rightarrow> world \<Rightarrow> world" where
  "external (Event name payload) w = on_event name payload w"
| "external (Cancel tid) w = cancel tid w"

subsection \<open>Running the loop\<close>

text \<open>One step of a task: its coroutine runs to the next suspension point.\<close>

definition suspend :: "nat \<Rightarrow> coro \<Rightarrow> susp \<Rightarrow> world \<Rightarrow> world" where
  "suspend tid c s w =
     w\<lparr>tasks := (tasks w)[tid :=
         \<lparr>coro = c,
          tstate = (case s of
                      Await_timer n \<Rightarrow> Sleeping (now w + n)
                    | Await_future f \<Rightarrow> OnFuture f
                    | Return v \<Rightarrow> Finished (Returned v)
                    | Raise e \<Rightarrow> Finished (Raised e)),
          must_cancel = False\<rparr>]\<rparr>"

definition step_task :: "nat \<Rightarrow> world \<Rightarrow> world" where
  "step_task tid w =
     (if tid < length (tasks w) then
        (let t = tasks w ! tid in
         case tstate t of
           Finished r \<Rightarrow> w
         | _ \<Rightarrow> (case resume (coro t) (must_cancel t) w of (c', s, w') \<Rightarrow> suspend tid c' s w'))
      else w)"

text \<open>The times at which a sleeping task is due.\<close>

fun timers :: "task list \<Rightarrow> nat list" where
  "timers [] = []"
| "timers (t # ts) = (case tstate t of Sleeping d \<Rightarrow> d # timers ts | _ \<Rightarrow> timers ts)"

text \<open>The next time at which a timer fires or the environment acts, if there is one.\<close>

definition next_time :: "world \<Rightarrow> nat option" where
  "next_time w =
     (case timers (tasks w) @ map fst (inbox w) of
        [] \<Rightarrow> None
      | d # ds \<Rightarrow> Some (fold min ds d))"

text \<open>What the environment does up to time \<open>T\<close>, in the order of the inbox.\<close>

definition deliver :: "nat \<Rightarrow> world \<Rightarrow> world" where
  "deliver T w =
     fold external (map snd (filter (\<lambda>(t, e). t \<le> T) (inbox w)))
       (w\<lparr>inbox := filter (\<lambda>(t, e). \<not> t \<le> T) (inbox w)\<rparr>)"

text \<open>
  One step of the loop. While a task is ready, the first of the queue runs one step.
  Otherwise the clock moves to the next time at which something is due: the tasks whose
  timers have fired are scheduled, then the environment's actions are carried out. With
  nothing ready and nothing due the loop is idle for ever (\<open>None\<close>).
\<close>

definition loop_step :: "world \<Rightarrow> world option" where
  "loop_step w =
     (case ready w of
        tid # rest \<Rightarrow> Some (step_task tid (w\<lparr>ready := rest\<rparr>))
      | [] \<Rightarrow>
          (case next_time w of
             None \<Rightarrow> None
           | Some T \<Rightarrow>
               (let T' = max (now w) T in
                Some (deliver T' (wake_all (\<lambda>s. case s of Sleeping d \<Rightarrow> d \<le> T' | _ \<Rightarrow> False)
                                    (w\<lparr>now := T'\<rparr>))))))"

text \<open>At most \<open>n\<close> steps of the loop, stopping when it is idle.\<close>

fun run :: "nat \<Rightarrow> world \<Rightarrow> world" where
  "run 0 w = w"
| "run (Suc n) w = (case loop_step w of None \<Rightarrow> w | Some w' \<Rightarrow> run n w')"

text \<open>Whether a task has returned or raised.\<close>

fun finished :: "tstate \<Rightarrow> bool" where
  "finished (Finished r) = True"
| "finished st = False"

text \<open>The state of a task, if the task exists.\<close>

definition state_of :: "nat \<Rightarrow> world \<Rightarrow> tstate option" where
  "state_of tid w = (if tid < length (tasks w) then Some (tstate (tasks w ! tid)) else None)"

section \<open>Observations and scenarios\<close>

text \<open>What a test double in place of the client would show: the keyword arguments of the
  \<^verbatim>\<open>set_activity\<close> calls so far, and the handler registered for an event name.\<close>

definition transmitted :: "world \<Rightarrow> (string \<rightharpoonup> val) list" where
  "transmitted w = (case rpc (party w) of None \<Rightarrow> [] | Some c \<Rightarrow> sent c)"

definition handler_of :: "string \<Rightarrow> world \<Rightarrow> handler option" where
  "handler_of name w = (case rpc (party w) of None \<Rightarrow> None | Some c \<Rightarrow> events c name)"

text \<open>The answer time of the peer, if the Party is connected.\<close>

definition peer_latency :: "world \<Rightarrow> nat option" where
  "peer_latency w = map_option latency (rpc (party w))"

definition spawn :: "coro \<Rightarrow> world \<Rightarrow> world" where
  "spawn c w = snd (create_task c w)"

text \<open>
  The scenarios below use a tick of a tenth of a second and a peer that answers after one
  tick. In \<open>join_scenario\<close> a connected Party waits for a player with the default callback
  behaviour of the test (a plain function, counted in \<open>calls\<close>) and \<^verbatim>\<open>delay=0.5\<close>; the
  join event arrives at 1.6 seconds. In \<open>cancel_scenario\<close> no event arrives and the caller
  cancels the waiting task (task 0) at 0.3 seconds.
\<close>

definition join_scenario :: world where
  "join_scenario =
     spawn (Wait_for_player_join None 5 W_start)
       (world_of (init 1 1234) [(16, Event ''ACTIVITY_JOIN'' [(''secret'', VStr ''s3cr3t'')])])"

definition cancel_scenario :: world where
  "cancel_scenario =
     spawn (Wait_for_player_join None 5 W_start) (world_of (init 1 1234) [(3, Cancel 0)])"

text \<open>
  In \<open>early_event_scenario\<close> the join event arrives at 0.2 seconds, together with the
  answer to the subscribe request and before the registration task has run again.
\<close>

definition early_event_scenario :: world where
  "early_event_scenario =
     spawn (Wait_for_player_join None 5 W_start)
       (world_of (init 1 1234) [(2, Event ''ACTIVITY_JOIN'' [(''secret'', VStr ''s3cr3t'')])])"

text \<open>A Party whose \<^verbatim>\<open>start()\<close> found no pipe, and a wait for a player on it.\<close>

definition failed_start :: party where
  "failed_start =
     (case start False (Some InvalidPipe) (init 1 1234) of Inl e \<Rightarrow> init 1 1234 | Inr p \<Rightarrow> p)"

definition disconnected_scenario :: world where
  "disconnected_scenario =
     spawn (Wait_for_player_join None 5 W_start) (world_of failed_start [])"

text \<open>\<^verbatim>\<open>update_loop(0.5)\<close> called twice on a connected Party.\<close>

definition two_loops_scenario :: world where
  "two_loops_scenario = snd (update_loop 5 (snd (update_loop 5 (world_of (init 1 1234) []))))"

text \<open>
  The scenario of the status snapshot: five assignments on a fresh Party, then
  \<^verbatim>\<open>await party\<close>.
\<close>

definition snapshot_party :: "nat \<Rightarrow> int \<Rightarrow> exn + party" where
  "snapshot_party lat pid =
     setprops [(''state'', VStr ''Looking for Players''), (''id'', VInt 42),
               (''join'', VStr ''abc''), (''size'', VInt 1), (''max'', VInt 4)] (init lat pid)"

definition snapshot_scenario :: "nat \<Rightarrow> int \<Rightarrow> world" where
  "snapshot_scenario lat pid =
     (case snapshot_party lat pid of
        Inl e \<Rightarrow> world_of (init lat pid) []
      | Inr p \<Rightarrow> spawn (Update U_start) (world_of p []))"

text \<open>
  The snapshot as the specification describes it: the fields that were set, with
  \<^verbatim>\<open>size\<close> and \<^verbatim>\<open>max\<close> as one pair, and nothing else.
\<close>

definition claimed_snapshot :: "string \<rightharpoonup> val" where
  "claimed_snapshot =
     [''state'' \<mapsto> VStr ''Looking for Players'', ''party_id'' \<mapsto> VInt 42,
      ''join'' \<mapsto> VStr ''abc'', ''party_size'' \<mapsto> VList [VInt 1, VInt 4]]"

section \<open>Properties of the status layer\<close>

subsection \<open>size and max\<close>

lemma map_of_size [simp]: "map_of status_vars ''size'' = None" "map_of status_vars ''max'' = None"
  "map_of status_vars ''party_size'' = None" "map_of status_vars ''party_max'' = None"
  by (simp_all add: status_vars_def)

lemma setprops_pair:
  assumes "status self ''party_size'' = Some (VList [a, b])"
    and "\<forall>(n, v) \<in> set ops. n = ''size'' \<or> n = ''max''"
  shows "\<exists>p. setprops ops self = Inr p \<and>
           status p ''party_size'' =
             Some (VList [case last_set [''size''] ops of Some v \<Rightarrow> v | None \<Rightarrow> a,
                          case last_set [''max''] ops of Some v \<Rightarrow> v | None \<Rightarrow> b])"
  using assms
proof (induction ops arbitrary: self a b)
  case Nil
  then show ?case by simp
next
  case (Cons op ops)
  obtain n v where op: "op = (n, v)" by (cases op)
  from Cons.prems(2) op have n: "n = ''size'' \<or> n = ''max''" by simp
  from Cons.prems(2) have rest: "\<forall>(n, v) \<in> set ops. n = ''size'' \<or> n = ''max''" by simp
  from n show ?case
  proof
    assume s: "n = ''size''"
    let ?p = "self\<lparr>status := (status self)(''party_size'' \<mapsto> VList [v, b])\<rparr>"
    have step: "setprop n v self = Inr ?p"
      using Cons.prems(1) s by (simp add: setprop_def party_size_set_def setitem_def)
    have "status ?p ''party_size'' = Some (VList [v, b])" by simp
    from Cons.IH[OF this rest] obtain p where
      p: "setprops ops ?p = Inr p"
         "status p ''party_size'' =
             Some (VList [case last_set [''size''] ops of Some v \<Rightarrow> v | None \<Rightarrow> v,
                          case last_set [''max''] ops of Some v \<Rightarrow> v | None \<Rightarrow> b])"
      by blast
    show ?thesis using p step op s by (auto split: option.splits)
  next
    assume s: "n = ''max''"
    let ?p = "self\<lparr>status := (status self)(''party_size'' \<mapsto> VList [a, v])\<rparr>"
    have step: "setprop n v self = Inr ?p"
      using Cons.prems(1) s by (simp add: setprop_def party_size_set_def setitem_def)
    have "status ?p ''party_size'' = Some (VList [a, v])" by simp
    from Cons.IH[OF this rest] obtain p where
      p: "setprops ops ?p = Inr p"
         "status p ''party_size'' =
             Some (VList [case last_set [''size''] ops of Some v \<Rightarrow> v | None \<Rightarrow> a,
                          case last_set [''max''] ops of Some v \<Rightarrow> v | None \<Rightarrow> v])"
      by blast
    show ?thesis using p step op s by (auto split: option.splits)
  qed
qed

text \<open>
  Claim C6. On a Party whose status has no \<^verbatim>\<open>party_size\<close> entry yet (a fresh one in
  particular), any non-empty sequence of assignments to \<^verbatim>\<open>size\<close> and \<^verbatim>\<open>max\<close>
  succeeds and leaves a two-element list under \<^verbatim>\<open>party_size\<close>: each half holds the
  value last assigned to it, or, if it was never assigned, the value of the first assignment,
  which initialised both halves. Reading \<^verbatim>\<open>size\<close> and \<^verbatim>\<open>max\<close> afterwards
  returns these halves. The witness has the two scenarios of the claim: \<^verbatim>\<open>size = 5\<close>
  then \<^verbatim>\<open>max = 10\<close> gives \<^verbatim>\<open>[5, 10]\<close>, and \<^verbatim>\<open>max = 10\<close> alone gives
  \<^verbatim>\<open>[10, 10]\<close>.
\<close>

theorem size_max_pair:
  assumes fresh: "status self ''party_size'' = None"
    and ne: "ops \<noteq> []"
    and only: "\<forall>(n, v) \<in> set ops. n = ''size'' \<or> n = ''max''"
  shows "\<exists>p. setprops ops self = Inr p \<and>
           status p ''party_size'' =
             Some (VList [expected_half ''size'' ops, expected_half ''max'' ops]) \<and>
           getprop ''size'' p = Inr (expected_half ''size'' ops) \<and>
           getprop ''max'' p = Inr (expected_half ''max'' ops)"
proof -
  from ne obtain n v rest where ops: "ops = (n, v) # rest" by (cases ops) auto
  let ?p = "self\<lparr>status := (status self)(''party_size'' \<mapsto> VList [v, v])\<rparr>"
  from only ops have n: "n = ''size'' \<or> n = ''max''" by simp
  from only ops have rest: "\<forall>(n, v) \<in> set rest. n = ''size'' \<or> n = ''max''" by simp
  have step: "setprop n v self = Inr ?p"
    using fresh n by (auto simp add: setprop_def party_size_set_def)
  have "status ?p ''party_size'' = Some (VList [v, v])" by simp
  from setprops_pair[OF this rest] obtain p where
    p: "setprops rest ?p = Inr p"
       "status p ''party_size'' =
           Some (VList [case last_set [''size''] rest of Some u \<Rightarrow> u | None \<Rightarrow> v,
                        case last_set [''max''] rest of Some u \<Rightarrow> u | None \<Rightarrow> v])"
    by blast
  have run: "setprops ops self = Inr p" using ops step p(1) by simp
  have e1: "expected_half ''size'' ops = (case last_set [''size''] rest of Some u \<Rightarrow> u | None \<Rightarrow> v)"
    using ops by (simp add: expected_half_def split: option.splits)
  have e2: "expected_half ''max'' ops = (case last_set [''max''] rest of Some u \<Rightarrow> u | None \<Rightarrow> v)"
    using ops by (simp add: expected_half_def split: option.splits)
  have st: "status p ''party_size'' = Some (VList [expected_half ''size'' ops, expected_half ''max'' ops])"
    using p(2) e1 e2 by simp
  have g1: "getprop ''size'' p = Inr (expected_half ''size'' ops)"
    using st by (simp add: getprop_def party_size_get_def getitem_def)
  have g2: "getprop ''max'' p = Inr (expected_half ''max'' ops)"
    using st by (simp add: getprop_def party_size_get_def getitem_def)
  from run st g1 g2 show ?thesis by blast
qed

theorem size_max_pair_witness:
  "status (init 0 7) ''party_size'' = None \<and>
   (\<exists>p. setprops [(''size'', VInt 5), (''max'', VInt 10)] (init 0 7) = Inr p \<and>
        status p ''party_size'' = Some (VList [VInt 5, VInt 10]) \<and>
        getprop ''size'' p = Inr (VInt 5) \<and> getprop ''max'' p = Inr (VInt 10)) \<and>
   (\<exists>p. setprops [(''max'', VInt 10)] (init 0 7) = Inr p \<and>
        status p ''party_size'' = Some (VList [VInt 10, VInt 10]) \<and>
        getprop ''size'' p = Inr (VInt 10) \<and> getprop ''max'' p = Inr (VInt 10))"
proof -
  have fresh: "status (init 0 7) ''party_size'' = None" by (simp add: init_def)
  have a: "[(''size'', VInt 5), (''max'', VInt 10)] \<noteq> []" by simp
  have b: "\<forall>(n, v) \<in> set [(''size'', VInt 5), (''max'', VInt 10)]. n = ''size'' \<or> n = ''max''" by simp
  have c: "[(''max'', VInt 10)] \<noteq> []" by simp
  have d: "\<forall>(n, v) \<in> set [(''max'', VInt 10)]. n = ''size'' \<or> n = ''max''" by simp
  show ?thesis
    using fresh size_max_pair[OF fresh a b] size_max_pair[OF fresh c d]
    by (simp add: expected_half_def)
qed

subsection \<open>Reading fields that were never set\<close>

lemma setprop_rpc: "setprop n v self = Inr p \<Longrightarrow> rpc p = rpc self"
  by (auto simp add: setprop_def status_var_set_def party_size_set_def
      split: option.splits sum.splits if_splits)

lemma setprop_party_size_absent:
  assumes "setprop n v self = Inr p"
    and "n \<notin> {''size'', ''party_size'', ''max'', ''party_max''}"
  shows "status p ''party_size'' = status self ''party_size''"
proof (cases "map_of status_vars n")
  case None
  with assms show ?thesis by (simp add: setprop_def)
next
  case (Some k)
  then have "(n, k) \<in> set status_vars" by (rule map_of_SomeD)
  then have "k \<noteq> ''party_size''" by (auto simp add: status_vars_def)
  with assms Some show ?thesis by (auto simp add: setprop_def status_var_set_def)
qed

lemma setprop_other_key:
  assumes "setprop n v self = Inr p"
    and "map_of status_vars n \<noteq> Some k"
    and "k \<noteq> ''party_size''"
  shows "status p k = status self k"
  using assms
  by (auto simp add: setprop_def status_var_set_def party_size_set_def
      split: option.splits sum.splits if_splits)

lemma setprops_party_size_absent:
  assumes "setprops ops self = Inr p"
    and "\<forall>(n, v) \<in> set ops. n \<notin> {''size'', ''party_size'', ''max'', ''party_max''}"
  shows "status p ''party_size'' = status self ''party_size''"
  using assms
proof (induction ops arbitrary: self)
  case Nil
  then show ?case by simp
next
  case (Cons op ops)
  obtain n v where op: "op = (n, v)" by (cases op)
  from Cons.prems(1) op obtain q where q: "setprop n v self = Inr q" "setprops ops q = Inr p"
    by (auto split: sum.splits)
  from Cons.prems(2) op have "n \<notin> {''size'', ''party_size'', ''max'', ''party_max''}" by simp
  from setprop_party_size_absent[OF q(1) this] have "status q ''party_size'' = status self ''party_size''" .
  moreover from Cons.prems(2) have "\<forall>(n, v) \<in> set ops. n \<notin> {''size'', ''party_size'', ''max'', ''party_max''}" by simp
  from Cons.IH[OF q(2) this] have "status p ''party_size'' = status q ''party_size''" .
  ultimately show ?case by simp
qed

lemma setprops_other_key:
  assumes "setprops ops self = Inr p"
    and "\<forall>(n, v) \<in> set ops. map_of status_vars n \<noteq> Some k"
    and "k \<noteq> ''party_size''"
  shows "status p k = status self k"
  using assms
proof (induction ops arbitrary: self)
  case Nil
  then show ?case by simp
next
  case (Cons op ops)
  obtain n v where op: "op = (n, v)" by (cases op)
  from Cons.prems(1) op obtain q where q: "setprop n v self = Inr q" "setprops ops q = Inr p"
    by (auto split: sum.splits)
  from Cons.prems(2) op have "map_of status_vars n \<noteq> Some k" by simp
  from setprop_other_key[OF q(1) this Cons.prems(3)] have "status q k = status self k" .
  moreover from Cons.prems(2) have "\<forall>(n, v) \<in> set ops. map_of status_vars n \<noteq> Some k" by simp
  from Cons.IH[OF q(2) this Cons.prems(3)] have "status p k = status q k" .
  ultimately show ?case by simp
qed

text \<open>
  Claim C10. Take a fresh Party and any sequence of property assignments that succeeds.
  If none of them assigned \<^verbatim>\<open>size\<close> or \<^verbatim>\<open>max\<close> (under either of their names),
  reading \<^verbatim>\<open>size\<close> or \<^verbatim>\<open>max\<close> raises \<^verbatim>\<open>KeyError('party_size')\<close>. Each of
  the eleven other status fields reads as \<^verbatim>\<open>None\<close>, without raising, as long as no
  assignment wrote its dictionary key.
\<close>

theorem unset_fields:
  assumes run: "setprops ops (init lat pid) = Inr p"
  shows "((\<forall>(n, v) \<in> set ops. n \<notin> {''size'', ''party_size'', ''max'', ''party_max''}) \<longrightarrow>
            getprop ''size'' p = Inl (KeyError ''party_size'') \<and>
            getprop ''max'' p = Inl (KeyError ''party_size'')) \<and>
         (\<forall>name \<in> set plain_fields.
            (\<forall>(n, v) \<in> set ops. map_of status_vars n \<noteq> map_of status_vars name) \<longrightarrow>
            getprop name p = Inr VNone)"
proof (intro conjI impI ballI)
  assume "\<forall>(n, v) \<in> set ops. n \<notin> {''size'', ''party_size'', ''max'', ''party_max''}"
  from setprops_party_size_absent[OF run this]
  have a: "status p ''party_size'' = None" by (simp add: init_def)
  from a show "getprop ''size'' p = Inl (KeyError ''party_size'')"
    by (simp add: getprop_def party_size_get_def)
  from a show "getprop ''max'' p = Inl (KeyError ''party_size'')"
    by (simp add: getprop_def party_size_get_def)
next
  fix name
  assume name: "name \<in> set plain_fields"
    and other: "\<forall>(n, v) \<in> set ops. map_of status_vars n \<noteq> map_of status_vars name"
  from name obtain k where k: "map_of status_vars name = Some k" "k \<noteq> ''party_size''" "k \<noteq> ''pid''"
    by (auto simp add: plain_fields_def status_vars_def)
  from other k(1) have "\<forall>(n, v) \<in> set ops. map_of status_vars n \<noteq> Some k" by simp
  from setprops_other_key[OF run this k(2)] k(3) have "status p k = None"
    by (simp add: init_def)
  with k(1) show "getprop name p = Inr VNone"
    by (simp add: getprop_def status_var_get_def)
qed

theorem unset_fields_witness:
  "setprops [(''state'', VStr ''x'')] (init 0 7) =
     Inr ((init 0 7)\<lparr>status := (status (init 0 7))(''state'' \<mapsto> VStr ''x'')\<rparr>) \<and>
   getprop ''size'' ((init 0 7)\<lparr>status := (status (init 0 7))(''state'' \<mapsto> VStr ''x'')\<rparr>) =
     Inl (KeyError ''party_size'') \<and>
   getprop ''max'' ((init 0 7)\<lparr>status := (status (init 0 7))(''state'' \<mapsto> VStr ''x'')\<rparr>) =
     Inl (KeyError ''party_size'') \<and>
   getprop ''join'' ((init 0 7)\<lparr>status := (status (init 0 7))(''state'' \<mapsto> VStr ''x'')\<rparr>) =
     Inr VNone"
proof -
  let ?p = "(init 0 7)\<lparr>status := (status (init 0 7))(''state'' \<mapsto> VStr ''x'')\<rparr>"
  have r1: "setprops [(''state'', VStr ''x'')] (init 0 7) = Inr ?p"
    by (simp add: setprop_def status_vars_def status_var_set_def)
  have j: "''join'' \<in> set plain_fields" by (simp add: plain_fields_def)
  have o: "\<forall>(n, v) \<in> set [(''state'', VStr ''x'')].
             map_of status_vars n \<noteq> map_of status_vars ''join''"
    by (simp add: status_vars_def)
  have s: "\<forall>(n, v) \<in> set [(''state'', VStr ''x'')].
             n \<notin> {''size'', ''party_size'', ''max'', ''party_max''}"
    by simp
  from unset_fields[OF r1] s have a:
    "getprop ''size'' ?p = Inl (KeyError ''party_size'') \<and>
     getprop ''max'' ?p = Inl (KeyError ''party_size'')" by blast
  from unset_fields[OF r1] j o have b: "getprop ''join'' ?p = Inr VNone" by blast
  from r1 a b show ?thesis by blast
qed

section \<open>Properties of the coroutines\<close>

lemma lower_ACTIVITY_JOIN: "lower ''ACTIVITY_JOIN'' = ''activity_join''"
  by code_simp

subsection \<open>What the loop's primitives leave unchanged\<close>

lemma wake_length: "length (fst (wake P i ts)) = length ts"
  by (induction ts arbitrary: i) (simp_all add: split_beta)

lemma wake_nth:
  "k < length ts \<Longrightarrow>
   fst (wake P i ts) ! k = (if P (tstate (ts ! k)) then (ts ! k)\<lparr>tstate := Ready\<rparr> else ts ! k)"
proof (induction ts arbitrary: i k)
  case Nil
  then show ?case by simp
next
  case (Cons t ts)
  show ?case
  proof (cases k)
    case 0
    then show ?thesis by (simp add: split_beta)
  next
    case (Suc j)
    with Cons.prems have "j < length ts" by simp
    from Cons.IH[OF this, of "Suc i"] Suc show ?thesis by (simp add: split_beta)
  qed
qed

lemma wake_all_fields [simp]:
  "party (wake_all P w) = party w" "futs (wake_all P w) = futs w" "now (wake_all P w) = now w"
  "calls (wake_all P w) = calls w" "errors (wake_all P w) = errors w" "inbox (wake_all P w) = inbox w"
  "tasks (wake_all P w) = fst (wake P 0 (tasks w))"
  by (simp_all add: wake_all_def split: prod.splits)

lemma cancel_fields [simp]:
  "party (cancel t w) = party w" "now (cancel t w) = now w" "calls (cancel t w) = calls w"
  "length (tasks (cancel t w)) = length (tasks w)"
  by (simp_all add: cancel_def Let_def split: tstate.splits)

lemma create_task_fields [simp]:
  "party (snd (create_task c w)) = party w" "futs (snd (create_task c w)) = futs w"
  "now (snd (create_task c w)) = now w"
  by (simp_all add: create_task_def)

lemma set_result_party: "set_result fid v w = Inr w' \<Longrightarrow> party w' = party w"
  by (auto simp add: set_result_def split: if_splits)

lemma on_event_party [simp]: "party (on_event name payload w) = party w"
  by (auto simp add: on_event_def call_handler_def dest: set_result_party
      split: option.splits sum.splits handler.splits)

lemma external_party [simp]: "party (external e w) = party w"
  by (cases e) simp_all

lemma fold_external_party [simp]: "party (fold external es w) = party w"
  by (induction es arbitrary: w) simp_all

lemma deliver_party [simp]: "party (deliver T w) = party w"
  by (simp add: deliver_def)

lemma with_client_disconnected:
  "rpc (party w) = None \<Longrightarrow> rpc (party (with_client f w)) = None"
  by (simp add: with_client_def)

lemma resume_disconnected:
  assumes "rpc (party w) = None" and "resume c x w = (c', s, w')"
  shows "rpc (party w') = None"
proof (cases c)
  case (Update pc)
  with assms show ?thesis
    by (cases pc) (auto simp add: update_begin_def split: if_splits prod.splits)
next
  case (Leloop d pc)
  with assms show ?thesis
    by (cases pc) (auto simp add: update_begin_def leloop_iteration_def split: if_splits prod.splits)
next
  case (Meantime m d pc)
  with assms show ?thesis
    by (cases pc) (auto split: if_splits prod.splits option.splits)
next
  case (Register_event e f pc)
  with assms show ?thesis
    by (cases pc) (auto simp add: with_client_def split: if_splits prod.splits)
next
  case (Wait_for_player_join m d pc)
  with assms show ?thesis
    by (cases pc)
      (auto simp add: update_begin_def wait_after_update_def create_future_def on_player_join_def
         wait_after_fut_def Let_def with_client_def
         split: if_splits prod.splits fut.splits)
qed

lemma step_task_disconnected:
  assumes "rpc (party w) = None"
  shows "rpc (party (step_task tid w)) = None"
proof -
  { fix c' s w' assume "resume (coro (tasks w ! tid)) (must_cancel (tasks w ! tid)) w = (c', s, w')"
    from resume_disconnected[OF assms this] have "rpc (party (suspend tid c' s w')) = None"
      by (simp add: suspend_def) }
  then show ?thesis using assms
    by (auto simp add: step_task_def Let_def split: tstate.splits prod.splits)
qed

lemma loop_step_disconnected:
  assumes "rpc (party w) = None" and "loop_step w = Some w'"
  shows "rpc (party w') = None"
  using assms step_task_disconnected[of "w\<lparr>ready := tl (ready w)\<rparr>" "hd (ready w)"]
  by (auto simp add: loop_step_def Let_def split: list.splits option.splits)

lemma run_disconnected: "rpc (party w) = None \<Longrightarrow> rpc (party (run n w)) = None"
proof (induction n arbitrary: w)
  case 0
  then show ?case by simp
next
  case (Suc n)
  show ?case
  proof (cases "loop_step w")
    case None
    with Suc.prems show ?thesis by simp
  next
    case (Some w')
    from loop_step_disconnected[OF Suc.prems Some] have "rpc (party w') = None" .
    from Suc.IH[OF this] Some show ?thesis by simp
  qed
qed

subsection \<open>A failed start\<close>

text \<open>
  Claim C9. On a Party that holds a client, a \<^verbatim>\<open>start()\<close> whose connection attempt
  raises \<^verbatim>\<open>InvalidPipe\<close> re-raises it when \<^verbatim>\<open>raise_on_fail\<close> is true. Otherwise it
  returns normally with \<^verbatim>\<open>_rpc\<close> set to \<^verbatim>\<open>None\<close>, so \<^verbatim>\<open>bool(party)\<close> is false,
  and it stays false however long the event loop runs afterwards.
\<close>

theorem start_fails:
  assumes "rpc self = Some c"
  shows "start True (Some InvalidPipe) self = Inl InvalidPipe \<and>
         start False (Some InvalidPipe) self = Inr (self\<lparr>rpc := None\<rparr>) \<and>
         rpc (self\<lparr>rpc := None\<rparr>) = None \<and>
         \<not> bool_party (self\<lparr>rpc := None\<rparr>) \<and>
         (\<forall>w n. party w = self\<lparr>rpc := None\<rparr> \<longrightarrow> \<not> bool_party (party (run n w)))"
  using assms run_disconnected by (simp add: start_def bool_party_def)

theorem start_fails_witness:
  "start True (Some InvalidPipe) (init 1 1234) = Inl InvalidPipe \<and>
   start False (Some InvalidPipe) (init 1 1234) = Inr ((init 1 1234)\<lparr>rpc := None\<rparr>) \<and>
   \<not> bool_party ((init 1 1234)\<lparr>rpc := None\<rparr>) \<and>
   \<not> bool_party (party (run 5 (world_of ((init 1 1234)\<lparr>rpc := None\<rparr>) [])))"
proof -
  have c: "rpc (init 1 1234) = Some \<lparr>events = Map.empty, sent = [], subscribed = [], latency = 1\<rparr>"
    by (simp add: init_def)
  have p: "party (world_of ((init 1 1234)\<lparr>rpc := None\<rparr>) []) = (init 1 1234)\<lparr>rpc := None\<rparr>"
    by (simp add: world_of_def)
  from start_fails[OF c] p show ?thesis by blast
qed

subsection \<open>The status snapshot\<close>

lemma handler_of_with_client_sent [simp]:
  "handler_of name (with_client (\<lambda>c. c\<lparr>sent := f c\<rparr>) w) = handler_of name w"
  by (simp add: handler_of_def with_client_def split: option.splits)

text \<open>
  Claim C4, as the specification states it, fails: the snapshot sent in the scenario is not
  the four entries for the five fields that were set, because it also has the entry
  \<^verbatim>\<open>pid\<close> that \<^verbatim>\<open>__init__\<close> put into the dictionary.
\<close>

theorem snapshot_counterexample:
  "hd (transmitted (run 3 (snapshot_scenario 1 1234))) ''pid'' = Some (VInt 1234) \<and>
   claimed_snapshot ''pid'' = None \<and>
   transmitted (run 3 (snapshot_scenario 1 1234)) \<noteq> [claimed_snapshot]"
proof -
  have a: "hd (transmitted (run 3 (snapshot_scenario 1 1234))) ''pid'' = Some (VInt 1234)"
    by code_simp
  have b: "claimed_snapshot ''pid'' = None" by (simp add: claimed_snapshot_def)
  have "transmitted (run 3 (snapshot_scenario 1 1234)) \<noteq> [claimed_snapshot]"
  proof
    assume "transmitted (run 3 (snapshot_scenario 1 1234)) = [claimed_snapshot]"
    with a have "claimed_snapshot ''pid'' = Some (VInt 1234)" by simp
    with b show False by simp
  qed
  with a b show ?thesis by simp
qed

text \<open>
  Claim C4, amended. For every latency of the peer and every process id, the scenario sends
  exactly one snapshot: the entries \<^verbatim>\<open>state\<close>, \<^verbatim>\<open>party_id\<close>, \<^verbatim>\<open>join\<close> and
  \<^verbatim>\<open>party_size\<close> with the values that were set, \<^verbatim>\<open>size\<close> and \<^verbatim>\<open>max\<close> as the one
  pair \<^verbatim>\<open>[1, 4]\<close>, and in addition the entry \<^verbatim>\<open>pid\<close> of the constructor. These are its
  five keys.
\<close>

theorem snapshot_has_pid:
  "transmitted (run 3 (snapshot_scenario lat pid)) = [claimed_snapshot(''pid'' \<mapsto> VInt pid)] \<and>
   state_of 0 (run 3 (snapshot_scenario lat pid)) = Some (Finished (Returned VNone)) \<and>
   dom (claimed_snapshot(''pid'' \<mapsto> VInt pid)) =
     {''pid'', ''state'', ''party_id'', ''join'', ''party_size''}"
proof -
  have a: "transmitted (run 3 (snapshot_scenario lat pid)) =
      [[''pid'' \<mapsto> VInt pid, ''state'' \<mapsto> VStr ''Looking for Players'', ''party_id'' \<mapsto> VInt 42,
        ''join'' \<mapsto> VStr ''abc'', ''party_size'' \<mapsto> VList [VInt 1, VInt 4]]]"
    by (simp add: snapshot_scenario_def snapshot_party_def setprop_def status_vars_def
        status_var_set_def party_size_set_def setitem_def init_def spawn_def create_task_def
        world_of_def numeral_eq_Suc loop_step_def step_task_def update_begin_def with_client_def
        suspend_def next_time_def wake_all_def deliver_def transmitted_def)
  have b: "[''pid'' \<mapsto> VInt pid, ''state'' \<mapsto> VStr ''Looking for Players'', ''party_id'' \<mapsto> VInt 42,
        ''join'' \<mapsto> VStr ''abc'', ''party_size'' \<mapsto> VList [VInt 1, VInt 4]] =
        claimed_snapshot(''pid'' \<mapsto> VInt pid)"
    by (rule ext) (simp add: claimed_snapshot_def)
  have c: "state_of 0 (run 3 (snapshot_scenario lat pid)) = Some (Finished (Returned VNone))"
    by (simp add: snapshot_scenario_def snapshot_party_def setprop_def status_vars_def
        status_var_set_def party_size_set_def setitem_def init_def spawn_def create_task_def
        world_of_def numeral_eq_Suc loop_step_def step_task_def update_begin_def with_client_def
        suspend_def next_time_def wake_all_def deliver_def state_of_def)
  have d: "dom (claimed_snapshot(''pid'' \<mapsto> VInt pid)) =
     {''pid'', ''state'', ''party_id'', ''join'', ''party_size''}"
    by (auto simp add: claimed_snapshot_def)
  from a b c d show ?thesis by simp
qed

subsection \<open>The periodic update loop\<close>

text \<open>
  Claim C5, as the specification states it, fails: after two calls of \<^verbatim>\<open>update_loop\<close>
  both tasks run \<^verbatim>\<open>leloop\<close> side by side. Neither has been cancelled, both wait for the
  answer to a push of their own, and later both sleep and push again.
\<close>

theorem two_loops_counterexample:
  "map coro (tasks (run 2 two_loops_scenario)) = [Leloop 5 L_update, Leloop 5 L_update] \<and>
   map tstate (tasks (run 2 two_loops_scenario)) = [Sleeping 1, Sleeping 1] \<and>
   map must_cancel (tasks (run 2 two_loops_scenario)) = [False, False] \<and>
   length (transmitted (run 2 two_loops_scenario)) = 2 \<and>
   map tstate (tasks (run 8 two_loops_scenario)) = [Sleeping 7, Sleeping 7] \<and>
   length (transmitted (run 8 two_loops_scenario)) = 4"
  by code_simp

text \<open>
  Claim C5, amended. \<^verbatim>\<open>update_loop\<close> only adds a task and stores it in
  \<^verbatim>\<open>updating_loop\<close>: two calls in a row, from any state of the loop, leave all earlier
  tasks as they were and add two ready tasks, neither of them cancelled; the field holds the
  second. \<^verbatim>\<open>stop_updating_loop\<close> then requests the cancellation of the second task only,
  and so does \<^verbatim>\<open>close\<close>.
\<close>

theorem update_loop_keeps_previous:
  "(case update_loop d1 w of (t1, w1) \<Rightarrow>
      case update_loop d2 w1 of (t2, w2) \<Rightarrow>
        t1 = length (tasks w) \<and> t2 = Suc (length (tasks w)) \<and>
        tasks w2 = tasks w @
          [\<lparr>coro = Leloop d1 L_start, tstate = Ready, must_cancel = False\<rparr>,
           \<lparr>coro = Leloop d2 L_start, tstate = Ready, must_cancel = False\<rparr>] \<and>
        ready w2 = ready w @ [t1, t2] \<and>
        updating_loop (party w2) = Some t2 \<and>
        tasks (stop_updating_loop w2) = tasks w @
          [\<lparr>coro = Leloop d1 L_start, tstate = Ready, must_cancel = False\<rparr>,
           \<lparr>coro = Leloop d2 L_start, tstate = Ready, must_cancel = True\<rparr>] \<and>
        tasks (close w2) = tasks w @
          [\<lparr>coro = Leloop d1 L_start, tstate = Ready, must_cancel = False\<rparr>,
           \<lparr>coro = Leloop d2 L_start, tstate = Ready, must_cancel = True\<rparr>])"
  by (simp add: update_loop_def create_task_def stop_updating_loop_def close_def Let_def cancel_def
      nth_append list_update_append split: option.splits)

subsection \<open>Waiting for a player\<close>

lemma wake_ready:
  "k < length ts \<Longrightarrow> P (tstate (ts ! k)) \<Longrightarrow> i + k \<in> set (snd (wake P i ts))"
proof (induction ts arbitrary: i k)
  case Nil
  then show ?case by simp
next
  case (Cons t ts)
  show ?case
  proof (cases k)
    case 0
    with Cons.prems show ?thesis by (simp add: split_beta)
  next
    case (Suc j)
    with Cons.prems have "j < length ts" "P (tstate (ts ! j))" by simp_all
    from Cons.IH[OF this, of "Suc i"] Suc show ?thesis by (simp add: split_beta)
  qed
qed

lemma wake_all_ready: "ready (wake_all P w) = ready w @ snd (wake P 0 (tasks w))"
  by (simp add: wake_all_def split_beta)

lemma on_event_resolves:
  assumes "handler_of ''activity_join'' w = Some (Handler fid)"
    and "fid < length (futs w)" and "futs w ! fid = Pending"
    and "map_of payload ''secret'' = Some s"
  shows "on_event ''ACTIVITY_JOIN'' payload w =
           wake_all (\<lambda>st. st = OnFuture fid) (w\<lparr>futs := (futs w)[fid := Done s]\<rparr>)"
  using assms
  by (auto simp add: on_event_def handler_of_def lower_ACTIVITY_JOIN call_handler_def
      set_result_def split: option.splits)

lemma on_event_resolved:
  assumes "handler_of ''activity_join'' w = Some (Handler fid)"
    and "fid < length (futs w)" and "futs w ! fid = Done s"
  shows "futs (on_event ''ACTIVITY_JOIN'' payload w) = futs w"
  using assms
  by (auto simp add: on_event_def handler_of_def lower_ACTIVITY_JOIN call_handler_def
      set_result_def split: option.splits)

lemma handler_of_party: "party w' = party w \<Longrightarrow> handler_of name w' = handler_of name w"
  by (simp add: handler_of_def)

lemma peer_latency_party: "party w' = party w \<Longrightarrow> peer_latency w' = peer_latency w"
  by (simp add: peer_latency_def)

lemma step_task_after_result:
  assumes tid: "tid < length (tasks w)"
    and tsk: "tasks w ! tid =
      \<lparr>coro = Wait_for_player_join m d (W_fut fid task), tstate = Ready, must_cancel = False\<rparr>"
    and fut: "fid < length (futs w)" "futs w ! fid = Done s"
    and lat: "peer_latency w = Some lat"
  shows "step_task tid w =
           suspend tid (Wait_for_player_join m d (W_unregister s)) (Await_timer lat) (cancel task w)"
proof -
  from lat obtain c where c: "rpc (party w) = Some c" "latency c = lat"
    by (auto simp add: peer_latency_def)
  have "resume (coro (tasks w ! tid)) (must_cancel (tasks w ! tid)) w =
          (Wait_for_player_join m d (W_unregister s), Await_timer lat, cancel task w)"
    using tsk fut c by (simp add: wait_after_fut_def Let_def)
  then show ?thesis using tid tsk by (simp add: step_task_def Let_def)
qed

text \<open>
  Claim C1 fails on the code. In the scenario of the claim (\<^verbatim>\<open>delay=0.5\<close>, the event
  after 1.6 seconds) the callback is called once, not between two and four times:
  \<^verbatim>\<open>meantime\<close> has no loop. The wait returns the secret at 1.7 seconds (the answer to the
  unsubscribe request takes a tick), all three tasks have finished and the loop is idle, so
  the callback is not called again after the event either.
\<close>

theorem meanwhile_called_once:
  "calls (run 13 join_scenario) = 1 \<and>
   state_of 0 (run 13 join_scenario) = Some (Finished (Returned (VStr ''s3cr3t''))) \<and>
   now (run 13 join_scenario) = 17 \<and>
   map tstate (tasks (run 13 join_scenario)) =
     [Finished (Returned (VStr ''s3cr3t'')), Finished (Returned VNone), Finished (Returned VNone)] \<and>
   loop_step (run 13 join_scenario) = None"
  by code_simp

text \<open>
  Claim C3 fails on the code for \<^verbatim>\<open>wait_for_player_join\<close>. On a Party whose start found
  no pipe (\<^verbatim>\<open>bool(party)\<close> is false) the first step of the coroutine ends with
  \<^verbatim>\<open>AttributeError\<close>: \<^verbatim>\<open>update\<close> is skipped, but \<^verbatim>\<open>on_player_join\<close> looks up
  \<^verbatim>\<open>register_event\<close> on \<^verbatim>\<open>None\<close>.
\<close>

theorem disconnected_wait_raises:
  "bool_party failed_start = False \<and>
   state_of 0 (run 1 disconnected_scenario) = Some (Finished (Raised AttributeError))"
  by code_simp

text \<open>
  Claim C2, as the specification states it, fails. The caller cancels the wait at 0.3
  seconds, when the handler is registered and the task of \<^verbatim>\<open>meantime\<close> sleeps. The wait
  ends with \<^verbatim>\<open>CancelledError\<close>; the other task has not been cancelled (it still sleeps,
  and ends by itself at 0.6 seconds), and the handler is still registered when the loop has
  nothing left to do.
\<close>

theorem cancelled_wait_counterexample:
  "state_of 0 (run 9 cancel_scenario) = Some (Finished (Raised CancelledError)) \<and>
   map coro (tasks (run 9 cancel_scenario)) ! 2 = Meantime None 5 M_sleep \<and>
   state_of 2 (run 9 cancel_scenario) = Some (Sleeping 6) \<and>
   map must_cancel (tasks (run 9 cancel_scenario)) = [False, False, False] \<and>
   handler_of ''activity_join'' (run 9 cancel_scenario) = Some (Handler 0) \<and>
   loop_step (run 11 cancel_scenario) = None \<and>
   state_of 2 (run 11 cancel_scenario) = Some (Finished (Returned VNone)) \<and>
   now (run 11 cancel_scenario) = 6 \<and>
   handler_of ''activity_join'' (run 11 cancel_scenario) = Some (Handler 0)"
  by code_simp

text \<open>
  Claim C2, amended. Take a task of \<^verbatim>\<open>wait_for_player_join\<close> that is about to run.
  If its cancellation was requested, the step ends the task with \<^verbatim>\<open>CancelledError\<close> and
  changes nothing else: no other task is cancelled and the client is not touched, at whichever
  await the coroutine was suspended. The cleanup is on the path of the result only: resumed
  with the result of the future, the coroutine calls \<^verbatim>\<open>cancel\<close> on the task of
  \<^verbatim>\<open>meantime\<close> and waits for the answer to the unsubscribe request; resumed after that, it
  returns the secret and the handler is no longer registered.
\<close>

theorem wait_cleanup_only_on_result:
  assumes tid: "tid < length (tasks w)"
    and co: "coro (tasks w ! tid) = Wait_for_player_join m d pc"
    and rdy: "tstate (tasks w ! tid) = Ready"
  shows "(must_cancel (tasks w ! tid) \<longrightarrow>
            step_task tid w =
              w\<lparr>tasks := (tasks w)[tid :=
                  \<lparr>coro = Wait_for_player_join m d pc,
                   tstate = Finished (Raised CancelledError), must_cancel = False\<rparr>]\<rparr>) \<and>
         (\<not> must_cancel (tasks w ! tid) \<and> pc = W_fut fid task \<and> fid < length (futs w) \<and>
          futs w ! fid = Done s \<and> peer_latency w = Some lat \<longrightarrow>
            step_task tid w =
              suspend tid (Wait_for_player_join m d (W_unregister s)) (Await_timer lat)
                (cancel task w)) \<and>
         (\<not> must_cancel (tasks w ! tid) \<and> pc = W_unregister s \<longrightarrow>
            state_of tid (step_task tid w) = Some (Finished (Returned s)) \<and>
            handler_of ''activity_join'' (step_task tid w) = None)"
proof (intro conjI impI)
  assume mc: "must_cancel (tasks w ! tid)"
  have "resume (coro (tasks w ! tid)) (must_cancel (tasks w ! tid)) w =
          (Wait_for_player_join m d pc, Raise CancelledError, w)"
    using co mc by (cases pc) simp_all
  then show "step_task tid w =
      w\<lparr>tasks := (tasks w)[tid :=
          \<lparr>coro = Wait_for_player_join m d pc,
           tstate = Finished (Raised CancelledError), must_cancel = False\<rparr>]\<rparr>"
    using tid rdy by (simp add: step_task_def Let_def suspend_def)
next
  assume h: "\<not> must_cancel (tasks w ! tid) \<and> pc = W_fut fid task \<and> fid < length (futs w) \<and>
          futs w ! fid = Done s \<and> peer_latency w = Some lat"
  have tsk: "tasks w ! tid =
      \<lparr>coro = Wait_for_player_join m d (W_fut fid task), tstate = Ready, must_cancel = False\<rparr>"
    using co rdy h by (cases "tasks w ! tid") simp
  from h show "step_task tid w =
      suspend tid (Wait_for_player_join m d (W_unregister s)) (Await_timer lat) (cancel task w)"
    using step_task_after_result[OF tid tsk] by blast
next
  assume h: "\<not> must_cancel (tasks w ! tid) \<and> pc = W_unregister s"
  let ?w' = "with_client (\<lambda>c. c\<lparr>events := (events c)(lower ''ACTIVITY_JOIN'' := None)\<rparr>) w"
  have "resume (coro (tasks w ! tid)) (must_cancel (tasks w ! tid)) w =
          (Wait_for_player_join m d (W_unregister s), Return s, ?w')"
    using co h by simp
  then have st: "step_task tid w =
      suspend tid (Wait_for_player_join m d (W_unregister s)) (Return s) ?w'"
    using tid rdy by (simp add: step_task_def Let_def)
  show "state_of tid (step_task tid w) = Some (Finished (Returned s))"
    using tid by (simp add: st suspend_def state_of_def with_client_def)
  show "handler_of ''activity_join'' (step_task tid w) = None"
    by (simp add: st suspend_def handler_of_def with_client_def lower_ACTIVITY_JOIN
        split: option.splits)
qed

theorem wait_cleanup_only_on_result_witness:
  "must_cancel (tasks (run 8 cancel_scenario) ! 0) \<and>
   step_task 0 (run 8 cancel_scenario) =
     (run 8 cancel_scenario)\<lparr>tasks := (tasks (run 8 cancel_scenario))[0 :=
        \<lparr>coro = Wait_for_player_join None 5 (W_fut 0 2),
         tstate = Finished (Raised CancelledError), must_cancel = False\<rparr>]\<rparr> \<and>
   futs (run 10 join_scenario) ! 0 = Done (VStr ''s3cr3t'') \<and>
   step_task 0 (run 10 join_scenario) =
     suspend 0 (Wait_for_player_join None 5 (W_unregister (VStr ''s3cr3t''))) (Await_timer 1)
       (cancel 2 (run 10 join_scenario)) \<and>
   state_of 0 (step_task 0 (run 12 join_scenario)) =
     Some (Finished (Returned (VStr ''s3cr3t''))) \<and>
   handler_of ''activity_join'' (step_task 0 (run 12 join_scenario)) = None"
proof -
  have a1: "0 < length (tasks (run 8 cancel_scenario))" by code_simp
  have a2: "coro (tasks (run 8 cancel_scenario) ! 0) = Wait_for_player_join None 5 (W_fut 0 2)"
    by code_simp
  have a3: "tstate (tasks (run 8 cancel_scenario) ! 0) = Ready" by code_simp
  have a4: "must_cancel (tasks (run 8 cancel_scenario) ! 0)" by code_simp
  have b1: "0 < length (tasks (run 10 join_scenario))" by code_simp
  have b2: "coro (tasks (run 10 join_scenario) ! 0) = Wait_for_player_join None 5 (W_fut 0 2)"
    by code_simp
  have b3: "tstate (tasks (run 10 join_scenario) ! 0) = Ready" by code_simp
  have b4: "\<not> must_cancel (tasks (run 10 join_scenario) ! 0)" by code_simp
  have b5: "0 < length (futs (run 10 join_scenario))" by code_simp
  have b6: "futs (run 10 join_scenario) ! 0 = Done (VStr ''s3cr3t'')" by code_simp
  have b7: "peer_latency (run 10 join_scenario) = Some 1" by code_simp
  have c1: "0 < length (tasks (run 12 join_scenario))" by code_simp
  have c2: "coro (tasks (run 12 join_scenario) ! 0) =
      Wait_for_player_join None 5 (W_unregister (VStr ''s3cr3t''))"
    by code_simp
  have c3: "tstate (tasks (run 12 join_scenario) ! 0) = Ready" by code_simp
  have c4: "\<not> must_cancel (tasks (run 12 join_scenario) ! 0)" by code_simp
  from wait_cleanup_only_on_result[OF a1 a2 a3] a4 have a:
    "step_task 0 (run 8 cancel_scenario) =
     (run 8 cancel_scenario)\<lparr>tasks := (tasks (run 8 cancel_scenario))[0 :=
        \<lparr>coro = Wait_for_player_join None 5 (W_fut 0 2),
         tstate = Finished (Raised CancelledError), must_cancel = False\<rparr>]\<rparr>"
    by blast
  from wait_cleanup_only_on_result[OF b1 b2 b3, of 0 2 "VStr ''s3cr3t''" 1] b4 b5 b6 b7 have b:
    "step_task 0 (run 10 join_scenario) =
     suspend 0 (Wait_for_player_join None 5 (W_unregister (VStr ''s3cr3t''))) (Await_timer 1)
       (cancel 2 (run 10 join_scenario))"
    by blast
  from wait_cleanup_only_on_result[OF c1 c2 c3, of _ _ "VStr ''s3cr3t''"] c4 have c:
    "state_of 0 (step_task 0 (run 12 join_scenario)) =
       Some (Finished (Returned (VStr ''s3cr3t''))) \<and>
     handler_of ''activity_join'' (step_task 0 (run 12 join_scenario)) = None"
    by blast
  from a4 a b6 b c show ?thesis by blast
qed

text \<open>
  Claim C7, as the specification states it, fails. When the wait suspends on its future, the
  task that registers the handler has not run a single step, and no handler is registered.
  The handler appears only when that task has had the answer to its subscribe request.
\<close>

theorem registration_counterexample:
  "state_of 0 (run 3 join_scenario) = Some (OnFuture 0) \<and>
   map coro (tasks (run 3 join_scenario)) ! 1 =
     Register_event ''ACTIVITY_JOIN'' (Handler 0) R_start \<and>
   state_of 1 (run 3 join_scenario) = Some Ready \<and>
   handler_of ''activity_join'' (run 3 join_scenario) = None \<and>
   handler_of ''activity_join'' (run 6 join_scenario) = None \<and>
   handler_of ''activity_join'' (run 7 join_scenario) = Some (Handler 0)"
  by code_simp

text \<open>
  Claim C7, amended. On a connected Party the first step of \<^verbatim>\<open>wait_for_player_join\<close>
  sends the status and waits for the answer; nothing else has happened by then. The next step
  creates the future, schedules the registration of the handler and the task of
  \<^verbatim>\<open>meantime\<close> as two new ready tasks, and suspends on the future. It leaves the registered
  handlers as they were. The registration task does not register anything in its first step
  (the subscribe request); the handler is stored under the lower-cased name in its second.
\<close>

theorem registration_is_scheduled:
  assumes "peer_latency w = Some lat"
  shows "resume_wait m d W_start False w =
           (W_update, Await_timer lat,
            with_client (\<lambda>c. c\<lparr>sent := sent c @ [status (party w)]\<rparr>) w) \<and>
         resume_wait m d W_update False w =
           (W_fut (length (futs w)) (Suc (length (tasks w))), Await_future (length (futs w)),
            w\<lparr>futs := futs w @ [Pending],
              tasks := tasks w @
                [\<lparr>coro = Register_event ''ACTIVITY_JOIN'' (Handler (length (futs w))) R_start,
                  tstate = Ready, must_cancel = False\<rparr>,
                 \<lparr>coro = Meantime m d M_start, tstate = Ready, must_cancel = False\<rparr>],
              ready := ready w @ [length (tasks w), Suc (length (tasks w))]\<rparr>) \<and>
         handler_of name (snd (snd (resume_wait m d W_update False w))) = handler_of name w \<and>
         handler_of name (snd (snd (resume_register e f R_start False w))) = handler_of name w \<and>
         handler_of (lower e) (snd (snd (resume_register e f R_subscribe False w))) = Some f"
proof -
  from assms obtain c where c: "rpc (party w) = Some c" "latency c = lat"
    by (auto simp add: peer_latency_def)
  have a: "resume_wait m d W_start False w =
           (W_update, Await_timer lat,
            with_client (\<lambda>c. c\<lparr>sent := sent c @ [status (party w)]\<rparr>) w)"
    using c by (simp add: update_begin_def)
  have b: "resume_wait m d W_update False w =
           (W_fut (length (futs w)) (Suc (length (tasks w))), Await_future (length (futs w)),
            w\<lparr>futs := futs w @ [Pending],
              tasks := tasks w @
                [\<lparr>coro = Register_event ''ACTIVITY_JOIN'' (Handler (length (futs w))) R_start,
                  tstate = Ready, must_cancel = False\<rparr>,
                 \<lparr>coro = Meantime m d M_start, tstate = Ready, must_cancel = False\<rparr>],
              ready := ready w @ [length (tasks w), Suc (length (tasks w))]\<rparr>)"
    using c by (simp add: wait_after_update_def create_future_def on_player_join_def create_task_def)
  have b': "handler_of name (snd (snd (resume_wait m d W_update False w))) = handler_of name w"
    unfolding b by (simp add: handler_of_def)
  have r1: "handler_of name (snd (snd (resume_register e f R_start False w))) = handler_of name w"
    using c by (simp add: handler_of_def with_client_def)
  have r2: "handler_of (lower e) (snd (snd (resume_register e f R_subscribe False w))) = Some f"
    using c by (simp add: handler_of_def with_client_def)
  from a b b' r1 r2 show ?thesis by blast
qed

theorem registration_is_scheduled_witness:
  "peer_latency (run 2 join_scenario) = Some 1 \<and>
   resume_wait None 5 W_update False (run 2 join_scenario) =
     (W_fut 0 2, Await_future 0,
      (run 2 join_scenario)\<lparr>futs := [Pending],
        tasks := tasks (run 2 join_scenario) @
          [\<lparr>coro = Register_event ''ACTIVITY_JOIN'' (Handler 0) R_start,
            tstate = Ready, must_cancel = False\<rparr>,
           \<lparr>coro = Meantime None 5 M_start, tstate = Ready, must_cancel = False\<rparr>],
        ready := [0, 1, 2]\<rparr>) \<and>
   handler_of ''activity_join'' (snd (snd (resume_wait None 5 W_update False (run 2 join_scenario)))) =
     None \<and>
   handler_of ''activity_join''
     (snd (snd (resume_register ''ACTIVITY_JOIN'' (Handler 0) R_start False (run 2 join_scenario)))) =
     None \<and>
   handler_of ''activity_join''
     (snd (snd (resume_register ''ACTIVITY_JOIN'' (Handler 0) R_subscribe False (run 2 join_scenario)))) =
     Some (Handler 0)"
proof -
  have h: "peer_latency (run 2 join_scenario) = Some 1" by code_simp
  have f: "futs (run 2 join_scenario) = []" by code_simp
  have t: "length (tasks (run 2 join_scenario)) = 1" by code_simp
  have r: "ready (run 2 join_scenario) = [0]" by code_simp
  have n: "handler_of ''activity_join'' (run 2 join_scenario) = None" by code_simp
  note inst = registration_is_scheduled[OF h, of None 5 "''activity_join''" "''ACTIVITY_JOIN''"
      "Handler 0"]
  from inst have b0:
    "resume_wait None 5 W_update False (run 2 join_scenario) =
     (W_fut (length (futs (run 2 join_scenario))) (Suc (length (tasks (run 2 join_scenario)))),
      Await_future (length (futs (run 2 join_scenario))),
      (run 2 join_scenario)\<lparr>futs := futs (run 2 join_scenario) @ [Pending],
        tasks := tasks (run 2 join_scenario) @
          [\<lparr>coro = Register_event ''ACTIVITY_JOIN''
                     (Handler (length (futs (run 2 join_scenario)))) R_start,
            tstate = Ready, must_cancel = False\<rparr>,
           \<lparr>coro = Meantime None 5 M_start, tstate = Ready, must_cancel = False\<rparr>],
        ready := ready (run 2 join_scenario) @
          [length (tasks (run 2 join_scenario)), Suc (length (tasks (run 2 join_scenario)))]\<rparr>)"
    by blast
  have b:
    "resume_wait None 5 W_update False (run 2 join_scenario) =
     (W_fut 0 2, Await_future 0,
      (run 2 join_scenario)\<lparr>futs := [Pending],
        tasks := tasks (run 2 join_scenario) @
          [\<lparr>coro = Register_event ''ACTIVITY_JOIN'' (Handler 0) R_start,
            tstate = Ready, must_cancel = False\<rparr>,
           \<lparr>coro = Meantime None 5 M_start, tstate = Ready, must_cancel = False\<rparr>],
        ready := [0, 1, 2]\<rparr>)"
    unfolding b0 f t r by simp
  from inst have c0:
    "handler_of ''activity_join''
       (snd (snd (resume_wait None 5 W_update False (run 2 join_scenario)))) =
     handler_of ''activity_join'' (run 2 join_scenario)"
    by blast
  have c:
    "handler_of ''activity_join''
       (snd (snd (resume_wait None 5 W_update False (run 2 join_scenario)))) = None"
    by (rule trans[OF c0 n])
  from inst have d0:
    "handler_of ''activity_join''
       (snd (snd (resume_register ''ACTIVITY_JOIN'' (Handler 0) R_start False
          (run 2 join_scenario)))) =
     handler_of ''activity_join'' (run 2 join_scenario)"
    by blast
  have d:
    "handler_of ''activity_join''
       (snd (snd (resume_register ''ACTIVITY_JOIN'' (Handler 0) R_start False
          (run 2 join_scenario)))) = None"
    by (rule trans[OF d0 n])
  from inst have e0:
    "handler_of (lower ''ACTIVITY_JOIN'')
       (snd (snd (resume_register ''ACTIVITY_JOIN'' (Handler 0) R_subscribe False
          (run 2 join_scenario)))) = Some (Handler 0)"
    by blast
  have e:
    "handler_of ''activity_join''
       (snd (snd (resume_register ''ACTIVITY_JOIN'' (Handler 0) R_subscribe False
          (run 2 join_scenario)))) = Some (Handler 0)"
    using e0 unfolding lower_ACTIVITY_JOIN .
  from h b c d e show ?thesis by blast
qed

subsection \<open>The join event\<close>

lemma wake_none: "(\<forall>k<length ts. \<not> P (tstate (ts ! k))) \<Longrightarrow> wake P i ts = (ts, [])"
proof (induction ts arbitrary: i)
  case Nil
  then show ?case by simp
next
  case (Cons t ts)
  from Cons.prems have h: "\<not> P (tstate t)" by force
  from Cons.prems have "\<forall>k<length ts. \<not> P (tstate (ts ! k))" by force
  from Cons.IH[OF this, of "Suc i"] h show ?case by simp
qed

lemma wake_one:
  "tid < length ts \<Longrightarrow> P (tstate (ts ! tid)) \<Longrightarrow>
   (\<forall>k<length ts. k \<noteq> tid \<longrightarrow> \<not> P (tstate (ts ! k))) \<Longrightarrow>
   wake P i ts = (ts[tid := (ts ! tid)\<lparr>tstate := Ready\<rparr>], [i + tid])"
proof (induction ts arbitrary: i tid)
  case Nil
  then show ?case by simp
next
  case (Cons t ts)
  show ?case
  proof (cases tid)
    case 0
    from Cons.prems(3) 0 have "\<forall>k<length ts. \<not> P (tstate (ts ! k))" by force
    from wake_none[OF this, of "Suc i"] Cons.prems(2) 0 show ?thesis by simp
  next
    case (Suc j)
    from Cons.prems(3) Suc have h: "\<not> P (tstate t)" by force
    from Cons.prems Suc have j: "j < length ts" "P (tstate (ts ! j))" by simp_all
    from Cons.prems(3) Suc have "\<forall>k<length ts. k \<noteq> j \<longrightarrow> \<not> P (tstate (ts ! k))" by force
    from Cons.IH[OF j this, of "Suc i"] h Suc show ?thesis by simp
  qed
qed

lemma timers_none: "(\<forall>k<length ts. \<forall>e. tstate (ts ! k) \<noteq> Sleeping e) \<Longrightarrow> timers ts = []"
proof (induction ts)
  case Nil
  then show ?case by simp
next
  case (Cons t ts)
  from Cons.prems have h: "\<forall>e. tstate t \<noteq> Sleeping e" by force
  from Cons.prems have "\<forall>k<length ts. \<forall>e. tstate (ts ! k) \<noteq> Sleeping e" by force
  from Cons.IH[OF this] h show ?case by (simp split: tstate.splits)
qed

lemma timers_one:
  "tid < length ts \<Longrightarrow> tstate (ts ! tid) = Sleeping d \<Longrightarrow>
   (\<forall>k<length ts. k \<noteq> tid \<longrightarrow> (\<forall>e. tstate (ts ! k) \<noteq> Sleeping e)) \<Longrightarrow>
   timers ts = [d]"
proof (induction ts arbitrary: tid)
  case Nil
  then show ?case by simp
next
  case (Cons t ts)
  show ?case
  proof (cases tid)
    case 0
    from Cons.prems(3) 0 have "\<forall>k<length ts. \<forall>e. tstate (ts ! k) \<noteq> Sleeping e" by force
    from timers_none[OF this] Cons.prems(2) 0 show ?thesis by simp
  next
    case (Suc j)
    from Cons.prems(3) Suc have h: "\<forall>e. tstate t \<noteq> Sleeping e" by force
    from Cons.prems Suc have j: "j < length ts" "tstate (ts ! j) = Sleeping d" by simp_all
    from Cons.prems(3) Suc
    have "\<forall>k<length ts. k \<noteq> j \<longrightarrow> (\<forall>e. tstate (ts ! k) \<noteq> Sleeping e)" by force
    from Cons.IH[OF j this] h show ?thesis by (simp split: tstate.splits)
  qed
qed

lemma finished_not_sleeping: "finished st \<Longrightarrow> st \<noteq> Sleeping e"
  by (cases st) simp_all

lemma finished_not_due: "finished st \<Longrightarrow> \<not> (case st of Sleeping d \<Rightarrow> d \<le> X | _ \<Rightarrow> False)"
  by (cases st) simp_all

lemma finished_not_waiting: "finished st \<Longrightarrow> st \<noteq> OnFuture f"
  by (cases st) simp_all

lemma quiescent_join_run:
  assumes reg: "handler_of ''activity_join'' w = Some (Handler fid)"
    and lat: "peer_latency w = Some lat"
    and pend: "fid < length (futs w)" "futs w ! fid = Pending"
    and sec: "map_of payload ''secret'' = Some s"
    and tid: "tid < length (tasks w)"
    and tsk: "tasks w ! tid =
      \<lparr>coro = Wait_for_player_join m d (W_fut fid task), tstate = OnFuture fid,
        must_cancel = False\<rparr>"
    and q1: "ready w = []"
    and q2: "inbox w = [(T, Event ''ACTIVITY_JOIN'' payload)]"
    and q3: "\<forall>k<length (tasks w). k \<noteq> tid \<longrightarrow> finished (tstate (tasks w ! k))"
  shows "state_of tid (run 4 w) = Some (Finished (Returned s)) \<and>
         handler_of ''activity_join'' (run 4 w) = None \<and>
         now (run 4 w) = max (now w) T + lat \<and>
         loop_step (run 4 w) = None"
proof -
  define T' where "T' = max (now w) T"
  define R1 where "R1 =
    \<lparr>coro = Wait_for_player_join m d (W_fut fid task), tstate = Ready, must_cancel = False\<rparr>"
  define S2 where "S2 =
    \<lparr>coro = Wait_for_player_join m d (W_unregister s), tstate = Sleeping (T' + lat),
      must_cancel = False\<rparr>"
  define R3 where "R3 =
    \<lparr>coro = Wait_for_player_join m d (W_unregister s), tstate = Ready, must_cancel = False\<rparr>"
  define F4 where "F4 =
    \<lparr>coro = Wait_for_player_join m d (W_unregister s), tstate = Finished (Returned s),
      must_cancel = False\<rparr>"
  define B where "B = w\<lparr>inbox := [], futs := (futs w)[fid := Done s]\<rparr>"
  define W1 where "W1 = B\<lparr>now := T', tasks := (tasks w)[tid := R1], ready := [tid]\<rparr>"
  define W2 where "W2 = B\<lparr>now := T', tasks := (tasks w)[tid := S2], ready := []\<rparr>"
  define W3 where "W3 = B\<lparr>now := T' + lat, tasks := (tasks w)[tid := R3], ready := [tid]\<rparr>"
  define W4 where "W4 =
    with_client (\<lambda>c. c\<lparr>events := (events c)(lower ''ACTIVITY_JOIN'' := None)\<rparr>)
      (B\<lparr>now := T' + lat, tasks := (tasks w)[tid := F4], ready := []\<rparr>)"
  have others_sleep: "\<forall>k<length (tasks w). k \<noteq> tid \<longrightarrow> (\<forall>e. tstate (tasks w ! k) \<noteq> Sleeping e)"
    using q3 finished_not_sleeping by blast
  \<comment> \<open>step 1: the clock moves to the event, the handler resolves the future\<close>
  have tm: "timers (tasks w) = []"
  proof (rule timers_none, intro allI impI)
    fix k e assume k: "k < length (tasks w)"
    show "tstate (tasks w ! k) \<noteq> Sleeping e"
    proof (cases "k = tid")
      case True
      with tsk show ?thesis by simp
    next
      case False
      with others_sleep k show ?thesis by blast
    qed
  qed
  have nt: "next_time w = Some T" by (simp add: next_time_def tm q2)
  have nodue: "\<forall>k<length (tasks w).
      \<not> (case tstate (tasks w ! k) of Sleeping d \<Rightarrow> d \<le> T' | _ \<Rightarrow> False)"
  proof (intro allI impI)
    fix k assume k: "k < length (tasks w)"
    show "\<not> (case tstate (tasks w ! k) of Sleeping d \<Rightarrow> d \<le> T' | _ \<Rightarrow> False)"
    proof (cases "k = tid")
      case True
      with tsk show ?thesis by simp
    next
      case False
      with q3 k finished_not_due show ?thesis by blast
    qed
  qed
  have wa: "wake_all (\<lambda>st. case st of Sleeping d \<Rightarrow> d \<le> T' | _ \<Rightarrow> False) (w\<lparr>now := T'\<rparr>) =
      w\<lparr>now := T'\<rparr>"
    using wake_none[OF nodue, of 0] by (simp add: wake_all_def q1)
  have dl: "deliver T' (w\<lparr>now := T'\<rparr>) =
      on_event ''ACTIVITY_JOIN'' payload (w\<lparr>now := T', inbox := []\<rparr>)"
    by (simp add: deliver_def q2 T'_def)
  have oe: "on_event ''ACTIVITY_JOIN'' payload (w\<lparr>now := T', inbox := []\<rparr>) =
      wake_all (\<lambda>st. st = OnFuture fid)
        (w\<lparr>now := T', inbox := [], futs := (futs w)[fid := Done s]\<rparr>)"
    using on_event_resolves[of "w\<lparr>now := T', inbox := []\<rparr>" fid payload s] reg pend sec
    by (simp add: handler_of_def)
  have onlytid: "\<forall>k<length (tasks w). k \<noteq> tid \<longrightarrow> \<not> tstate (tasks w ! k) = OnFuture fid"
    using q3 finished_not_waiting by blast
  have wk: "wake (\<lambda>st. st = OnFuture fid) 0 (tasks w) = ((tasks w)[tid := R1], [tid])"
    using wake_one[OF tid _ onlytid, of 0] tsk by (simp add: R1_def)
  have e1: "loop_step w =
      Some (deliver T'
        (wake_all (\<lambda>st. case st of Sleeping d \<Rightarrow> d \<le> T' | _ \<Rightarrow> False) (w\<lparr>now := T'\<rparr>)))"
    by (simp add: loop_step_def q1 nt Let_def T'_def)
  have e2: "wake_all (\<lambda>st. st = OnFuture fid)
      (w\<lparr>now := T', inbox := [], futs := (futs w)[fid := Done s]\<rparr>) = W1"
    by (simp add: wake_all_def wk q1 W1_def B_def)
  have s1: "loop_step w = Some W1"
    by (simp only: e1 wa dl oe e2)
  \<comment> \<open>step 2: the waiting task takes the result\<close>
  let ?W1' = "W1\<lparr>ready := []\<rparr>"
  have t1: "tid < length (tasks ?W1')" using tid by (simp add: W1_def B_def)
  have r1: "tasks ?W1' ! tid = R1" using tid by (simp add: W1_def B_def)
  have f1: "fid < length (futs ?W1')" "futs ?W1' ! fid = Done s"
    using pend(1) by (simp_all add: W1_def B_def)
  have l1: "peer_latency ?W1' = Some lat" using lat by (simp add: W1_def B_def peer_latency_def)
  have st2: "step_task tid ?W1' =
      suspend tid (Wait_for_player_join m d (W_unregister s)) (Await_timer lat) (cancel task ?W1')"
    using step_task_after_result[OF t1 _ f1 l1, of m d task] r1 by (simp add: R1_def)
  have cn: "suspend tid (Wait_for_player_join m d (W_unregister s)) (Await_timer lat)
      (cancel task ?W1') = W2"
  proof (cases "task < length (tasks w)")
    case False
    then show ?thesis
      by (simp add: cancel_def suspend_def W1_def W2_def B_def S2_def)
  next
    case True
    show ?thesis
    proof (cases "task = tid")
      case True
      with tid show ?thesis
        by (simp add: cancel_def suspend_def W1_def W2_def B_def S2_def R1_def)
    next
      case False
      with q3 \<open>task < length (tasks w)\<close> have "finished (tstate (tasks w ! task))" by blast
      then obtain r where "tstate (tasks w ! task) = Finished r"
        by (cases "tstate (tasks w ! task)") simp_all
      with False \<open>task < length (tasks w)\<close> show ?thesis
        by (simp add: cancel_def suspend_def W1_def W2_def B_def S2_def)
    qed
  qed
  have s2: "loop_step W1 = Some W2"
    using st2 cn by (simp add: loop_step_def W1_def)
  \<comment> \<open>step 3: the answer to the unsubscribe request arrives\<close>
  have tl2: "tid < length (tasks W2)" using tid by (simp add: W2_def B_def)
  have ts2: "tstate (tasks W2 ! tid) = Sleeping (T' + lat)"
    using tid by (simp add: W2_def B_def S2_def)
  have oth2: "\<forall>k<length (tasks W2). k \<noteq> tid \<longrightarrow> finished (tstate (tasks W2 ! k))"
    using q3 by (simp add: W2_def B_def)
  have os2: "\<forall>k<length (tasks W2). k \<noteq> tid \<longrightarrow> (\<forall>e. tstate (tasks W2 ! k) \<noteq> Sleeping e)"
    using oth2 finished_not_sleeping by blast
  have tm2: "timers (tasks W2) = [T' + lat]" by (rule timers_one[OF tl2 ts2 os2])
  have nt2: "next_time W2 = Some (T' + lat)" by (simp add: next_time_def tm2) (simp add: W2_def B_def)
  have nd2: "\<forall>k<length (tasks W2). k \<noteq> tid \<longrightarrow>
      \<not> (case tstate (tasks W2 ! k) of Sleeping d \<Rightarrow> d \<le> T' + lat | _ \<Rightarrow> False)"
    using oth2 finished_not_due by blast
  have wk3: "wake (\<lambda>st. case st of Sleeping d \<Rightarrow> d \<le> T' + lat | _ \<Rightarrow> False) 0 (tasks W2) =
      ((tasks W2)[tid := (tasks W2 ! tid)\<lparr>tstate := Ready\<rparr>], [tid])"
    using wake_one[OF tl2 _ nd2, of 0] ts2 by simp
  have r3: "(tasks W2)[tid := (tasks W2 ! tid)\<lparr>tstate := Ready\<rparr>] = (tasks w)[tid := R3]"
    using tid by (simp add: W2_def B_def S2_def R3_def)
  have rd2: "ready W2 = []" and nw2: "now W2 = T'" and ib2: "inbox W2 = []"
    by (simp_all add: W2_def B_def)
  have e3: "loop_step W2 =
      Some (deliver (T' + lat)
        (wake_all (\<lambda>st. case st of Sleeping d \<Rightarrow> d \<le> T' + lat | _ \<Rightarrow> False)
          (W2\<lparr>now := T' + lat\<rparr>)))"
    by (simp add: loop_step_def rd2 nt2 nw2 Let_def)
  have wa3: "wake_all (\<lambda>st. case st of Sleeping d \<Rightarrow> d \<le> T' + lat | _ \<Rightarrow> False)
      (W2\<lparr>now := T' + lat\<rparr>) = W3"
    by (simp add: wake_all_def wk3 r3 rd2) (simp add: W2_def W3_def B_def)
  have dl3: "deliver (T' + lat) W3 = W3"
    by (simp add: deliver_def W3_def B_def)
  have s3: "loop_step W2 = Some W3"
    by (simp only: e3 wa3 dl3)
  \<comment> \<open>step 4: the waiting task returns\<close>
  let ?W3' = "W3\<lparr>ready := []\<rparr>"
  have t3: "tid < length (tasks ?W3')" using tid by (simp add: W3_def B_def)
  have c3: "tasks ?W3' ! tid = R3" using tid by (simp add: W3_def B_def)
  have st4: "step_task tid ?W3' = W4"
    using t3 c3
    by (simp add: step_task_def Let_def R3_def suspend_def with_client_def W3_def W4_def
        B_def F4_def)
  have s4: "loop_step W3 = Some W4"
    using st4 by (simp add: loop_step_def W3_def)
  \<comment> \<open>afterwards nothing is left to do\<close>
  have tk4: "tasks W4 = (tasks w)[tid := F4]" by (simp add: W4_def with_client_def B_def)
  have tm4: "timers (tasks W4) = []"
  proof (rule timers_none, intro allI impI)
    fix k e assume k: "k < length (tasks W4)"
    show "tstate (tasks W4 ! k) \<noteq> Sleeping e"
    proof (cases "k = tid")
      case True
      with tid show ?thesis by (simp add: tk4 F4_def)
    next
      case False
      with others_sleep k show ?thesis by (simp add: tk4)
    qed
  qed
  have rd4: "ready W4 = []" and ib4: "inbox W4 = []"
    by (simp_all add: W4_def with_client_def B_def)
  have s5: "loop_step W4 = None"
    by (simp add: loop_step_def next_time_def tm4 rd4 ib4)
  have r: "run 4 w = W4"
    by (simp add: numeral_eq_Suc s1 s2 s3 s4)
  have a: "state_of tid W4 = Some (Finished (Returned s))"
    using tid by (simp add: state_of_def tk4 F4_def)
  have b: "handler_of ''activity_join'' W4 = None"
    by (simp add: W4_def handler_of_def with_client_def lower_ACTIVITY_JOIN split: option.splits)
  have c: "now W4 = max (now w) T + lat"
    by (simp add: W4_def with_client_def B_def T'_def)
  from r a b c s5 show ?thesis by simp
qed

lemma step_task_returns:
  assumes tid: "tid < length (tasks w)"
    and tsk: "tasks w ! tid =
      \<lparr>coro = Wait_for_player_join m d (W_unregister s), tstate = Ready, must_cancel = False\<rparr>"
  shows "state_of tid (step_task tid w) = Some (Finished (Returned s)) \<and>
         handler_of ''activity_join'' (step_task tid w) = None"
proof -
  let ?w' = "with_client (\<lambda>c. c\<lparr>events := (events c)(lower ''ACTIVITY_JOIN'' := None)\<rparr>) w"
  have st: "step_task tid w =
      suspend tid (Wait_for_player_join m d (W_unregister s)) (Return s) ?w'"
    using tid tsk by (simp add: step_task_def Let_def)
  have a: "state_of tid (step_task tid w) = Some (Finished (Returned s))"
    using tid by (simp add: st suspend_def state_of_def with_client_def)
  have b: "handler_of ''activity_join'' (step_task tid w) = None"
    by (simp add: st suspend_def handler_of_def with_client_def lower_ACTIVITY_JOIN
        split: option.splits)
  from a b show ?thesis by blast
qed

lemma step_task_takes_result:
  assumes tid: "tid < length (tasks w)"
    and tsk: "tasks w ! tid =
      \<lparr>coro = Wait_for_player_join m d (W_fut fid task), tstate = Ready, must_cancel = False\<rparr>"
    and fut: "fid < length (futs w)" "futs w ! fid = Done s"
    and lat: "peer_latency w = Some lat"
  shows "tasks (step_task tid w) ! tid =
           \<lparr>coro = Wait_for_player_join m d (W_unregister s), tstate = Sleeping (now w + lat),
             must_cancel = False\<rparr>"
proof -
  have st: "step_task tid w =
      suspend tid (Wait_for_player_join m d (W_unregister s)) (Await_timer lat) (cancel task w)"
    by (rule step_task_after_result[OF tid tsk fut lat])
  have "tid < length (tasks (cancel task w))" using tid by simp
  then show ?thesis by (simp add: st suspend_def)
qed

text \<open>
  Claim C8, as the specification states it, fails. The wait is suspended on its future and
  the subscribe request has been sent when the join event arrives, but the handler is not in
  the client's table yet: the event is dropped, the future stays pending, the handler is
  registered one step later, and the loop ends up idle with the wait still suspended. The
  wait never returns the secret.
\<close>

theorem early_event_counterexample:
  "state_of 0 (run 5 early_event_scenario) = Some (OnFuture 0) \<and>
   futs (run 5 early_event_scenario) = [Pending] \<and>
   map fst (inbox (run 5 early_event_scenario)) = [2] \<and>
   handler_of ''activity_join'' (run 5 early_event_scenario) = None \<and>
   now (run 6 early_event_scenario) = 2 \<and>
   inbox (run 6 early_event_scenario) = [] \<and>
   futs (run 6 early_event_scenario) = [Pending] \<and>
   handler_of ''activity_join'' (run 7 early_event_scenario) = Some (Handler 0) \<and>
   loop_step (run 9 early_event_scenario) = None \<and>
   state_of 0 (run 9 early_event_scenario) = Some (OnFuture 0) \<and>
   futs (run 9 early_event_scenario) = [Pending]"
  by code_simp

text \<open>
  Claim C8, amended. The handler is registered for the future of a waiting task, the Party
  is connected, the future is pending, and the join event arrives with a payload whose
  \<^verbatim>\<open>secret\<close> is \<open>s\<close>. Then the future is resolved with \<open>s\<close>, and a further join event
  cannot change that (the second \<^verbatim>\<open>set_result\<close> raises inside the handler). The waiting
  task is made ready, and its next step takes \<open>s\<close> as \<^verbatim>\<open>secret\<close> and waits for the answer
  to the unsubscribe request. The same holds in any world \<open>wa\<close> in which the task is ready,
  not cancelled, and the future holds \<open>s\<close>. In any world \<open>wb\<close> in which the task is ready
  again and not cancelled, its step ends the task with the result \<open>s\<close> and the handler is
  no longer registered. When nothing else is going on (no task is ready, every other task
  has finished, the event is the only entry of the inbox), four steps of the loop take the
  wait from the arrival of the event to its result \<open>s\<close>, one latency after the event, and
  the loop is idle afterwards. In a world \<open>w0\<close> without a registered handler the event is
  dropped: it changes nothing.
\<close>

theorem join_event_after_registration:
  assumes reg: "handler_of ''activity_join'' w = Some (Handler fid)"
    and lat: "peer_latency w = Some lat"
    and pend: "fid < length (futs w)" "futs w ! fid = Pending"
    and sec: "map_of payload ''secret'' = Some s"
    and tid: "tid < length (tasks w)"
    and tsk: "tasks w ! tid =
      \<lparr>coro = Wait_for_player_join m d (W_fut fid task), tstate = OnFuture fid,
        must_cancel = False\<rparr>"
  shows "futs (on_event ''ACTIVITY_JOIN'' payload w) ! fid = Done s \<and>
         futs (on_event ''ACTIVITY_JOIN'' payload' (on_event ''ACTIVITY_JOIN'' payload w)) ! fid =
           Done s \<and>
         tasks (on_event ''ACTIVITY_JOIN'' payload w) ! tid =
           \<lparr>coro = Wait_for_player_join m d (W_fut fid task), tstate = Ready,
             must_cancel = False\<rparr> \<and>
         tid \<in> set (ready (on_event ''ACTIVITY_JOIN'' payload w)) \<and>
         tasks (step_task tid (on_event ''ACTIVITY_JOIN'' payload w)) ! tid =
           \<lparr>coro = Wait_for_player_join m d (W_unregister s), tstate = Sleeping (now w + lat),
             must_cancel = False\<rparr> \<and>
         (tid < length (tasks wa) \<and>
          tasks wa ! tid =
            \<lparr>coro = Wait_for_player_join m d (W_fut fid task), tstate = Ready,
              must_cancel = False\<rparr> \<and>
          fid < length (futs wa) \<and> futs wa ! fid = Done s \<and> peer_latency wa = Some la \<longrightarrow>
            tasks (step_task tid wa) ! tid =
              \<lparr>coro = Wait_for_player_join m d (W_unregister s),
                tstate = Sleeping (now wa + la), must_cancel = False\<rparr>) \<and>
         (tid < length (tasks wb) \<and>
          tasks wb ! tid =
            \<lparr>coro = Wait_for_player_join m d (W_unregister s), tstate = Ready,
              must_cancel = False\<rparr> \<longrightarrow>
            state_of tid (step_task tid wb) = Some (Finished (Returned s)) \<and>
            handler_of ''activity_join'' (step_task tid wb) = None) \<and>
         (ready w = [] \<and> inbox w = [(T, Event ''ACTIVITY_JOIN'' payload)] \<and>
          (\<forall>k<length (tasks w). k \<noteq> tid \<longrightarrow> finished (tstate (tasks w ! k))) \<longrightarrow>
            state_of tid (run 4 w) = Some (Finished (Returned s)) \<and>
            handler_of ''activity_join'' (run 4 w) = None \<and>
            now (run 4 w) = max (now w) T + lat \<and>
            loop_step (run 4 w) = None) \<and>
         (handler_of ''activity_join'' w0 = None \<longrightarrow>
            on_event ''ACTIVITY_JOIN'' payload w0 = w0)"
proof -
  let ?w1 = "on_event ''ACTIVITY_JOIN'' payload w"
  have w1: "?w1 = wake_all (\<lambda>st. st = OnFuture fid) (w\<lparr>futs := (futs w)[fid := Done s]\<rparr>)"
    by (rule on_event_resolves[OF reg pend sec])
  have f1: "futs ?w1 = (futs w)[fid := Done s]" by (simp add: w1)
  have a: "futs ?w1 ! fid = Done s" using pend(1) by (simp add: f1)
  have len1: "fid < length (futs ?w1)" using pend(1) by (simp add: f1)
  have reg1: "handler_of ''activity_join'' ?w1 = Some (Handler fid)"
    using reg handler_of_party[of ?w1 w] by simp
  have b: "futs (on_event ''ACTIVITY_JOIN'' payload' ?w1) ! fid = Done s"
    using on_event_resolved[OF reg1 len1 a] a by simp
  have t1: "tasks ?w1 ! tid =
      \<lparr>coro = Wait_for_player_join m d (W_fut fid task), tstate = Ready, must_cancel = False\<rparr>"
    using tid tsk by (simp add: w1 wake_nth)
  have tl1: "tid < length (tasks ?w1)" using tid by (simp add: w1 wake_length)
  have r1: "tid \<in> set (ready ?w1)"
    using wake_ready[of tid "tasks w" "\<lambda>st. st = OnFuture fid" 0] tid tsk
    by (simp add: w1 wake_all_ready)
  have lat1: "peer_latency ?w1 = Some lat" using lat peer_latency_party[of ?w1 w] by simp
  have now1: "now ?w1 = now w" by (simp add: w1)
  have c: "tasks (step_task tid ?w1) ! tid =
      \<lparr>coro = Wait_for_player_join m d (W_unregister s), tstate = Sleeping (now w + lat),
        must_cancel = False\<rparr>"
    using step_task_takes_result[OF tl1 t1 len1 a lat1] now1 by simp
  have d: "tid < length (tasks wa) \<and>
          tasks wa ! tid =
            \<lparr>coro = Wait_for_player_join m d (W_fut fid task), tstate = Ready,
              must_cancel = False\<rparr> \<and>
          fid < length (futs wa) \<and> futs wa ! fid = Done s \<and> peer_latency wa = Some la \<longrightarrow>
            tasks (step_task tid wa) ! tid =
              \<lparr>coro = Wait_for_player_join m d (W_unregister s),
                tstate = Sleeping (now wa + la), must_cancel = False\<rparr>"
    using step_task_takes_result[of tid wa m d fid task s la] by blast
  have e: "tid < length (tasks wb) \<and>
          tasks wb ! tid =
            \<lparr>coro = Wait_for_player_join m d (W_unregister s), tstate = Ready,
              must_cancel = False\<rparr> \<longrightarrow>
            state_of tid (step_task tid wb) = Some (Finished (Returned s)) \<and>
            handler_of ''activity_join'' (step_task tid wb) = None"
    using step_task_returns[of tid wb m d s] by blast
  have f: "ready w = [] \<and> inbox w = [(T, Event ''ACTIVITY_JOIN'' payload)] \<and>
          (\<forall>k<length (tasks w). k \<noteq> tid \<longrightarrow> finished (tstate (tasks w ! k))) \<longrightarrow>
            state_of tid (run 4 w) = Some (Finished (Returned s)) \<and>
            handler_of ''activity_join'' (run 4 w) = None \<and>
            now (run 4 w) = max (now w) T + lat \<and>
            loop_step (run 4 w) = None"
    using quiescent_join_run[OF reg lat pend sec tid tsk, of T] by blast
  have g: "handler_of ''activity_join'' w0 = None \<longrightarrow>
      on_event ''ACTIVITY_JOIN'' payload w0 = w0"
    by (simp add: on_event_def handler_of_def lower_ACTIVITY_JOIN split: option.splits)
  from a b t1 r1 c d e f g show ?thesis by blast
qed

theorem join_event_after_registration_witness:
  "handler_of ''activity_join'' (run 9 join_scenario) = Some (Handler 0) \<and>
   futs (run 9 join_scenario) ! 0 = Pending \<and>
   inbox (run 9 join_scenario) =
     [(16, Event ''ACTIVITY_JOIN'' [(''secret'', VStr ''s3cr3t'')])] \<and>
   futs (on_event ''ACTIVITY_JOIN'' [(''secret'', VStr ''s3cr3t'')] (run 9 join_scenario)) ! 0 =
     Done (VStr ''s3cr3t'') \<and>
   futs (on_event ''ACTIVITY_JOIN'' [(''secret'', VStr ''other'')]
          (on_event ''ACTIVITY_JOIN'' [(''secret'', VStr ''s3cr3t'')] (run 9 join_scenario))) ! 0 =
     Done (VStr ''s3cr3t'') \<and>
   0 \<in> set (ready (on_event ''ACTIVITY_JOIN'' [(''secret'', VStr ''s3cr3t'')] (run 9 join_scenario))) \<and>
   tasks (step_task 0 (run 10 join_scenario)) ! 0 =
     \<lparr>coro = Wait_for_player_join None 5 (W_unregister (VStr ''s3cr3t'')),
       tstate = Sleeping 17, must_cancel = False\<rparr> \<and>
   state_of 0 (step_task 0 (run 12 join_scenario)) =
     Some (Finished (Returned (VStr ''s3cr3t''))) \<and>
   handler_of ''activity_join'' (step_task 0 (run 12 join_scenario)) = None \<and>
   state_of 0 (run 4 (run 9 join_scenario)) = Some (Finished (Returned (VStr ''s3cr3t''))) \<and>
   handler_of ''activity_join'' (run 4 (run 9 join_scenario)) = None \<and>
   now (run 4 (run 9 join_scenario)) = 17 \<and>
   loop_step (run 4 (run 9 join_scenario)) = None \<and>
   handler_of ''activity_join'' (run 3 join_scenario) = None \<and>
   on_event ''ACTIVITY_JOIN'' [(''secret'', VStr ''s3cr3t'')] (run 3 join_scenario) =
     run 3 join_scenario"
proof -
  have reg: "handler_of ''activity_join'' (run 9 join_scenario) = Some (Handler 0)" by code_simp
  have lat: "peer_latency (run 9 join_scenario) = Some 1" by code_simp
  have p1: "0 < length (futs (run 9 join_scenario))" by code_simp
  have p2: "futs (run 9 join_scenario) ! 0 = Pending" by code_simp
  have sec: "map_of [(''secret'', VStr ''s3cr3t'')] ''secret'' = Some (VStr ''s3cr3t'')" by simp
  have tid: "0 < length (tasks (run 9 join_scenario))" by code_simp
  have tsk: "tasks (run 9 join_scenario) ! 0 =
      \<lparr>coro = Wait_for_player_join None 5 (W_fut 0 2), tstate = OnFuture 0, must_cancel = False\<rparr>"
    by code_simp
  have q1: "ready (run 9 join_scenario) = []" by code_simp
  have q2: "inbox (run 9 join_scenario) =
      [(16, Event ''ACTIVITY_JOIN'' [(''secret'', VStr ''s3cr3t'')])]" by code_simp
  have mt: "map tstate (tasks (run 9 join_scenario)) =
      [OnFuture 0, Finished (Returned VNone), Finished (Returned VNone)]" by code_simp
  have q3: "\<forall>k<length (tasks (run 9 join_scenario)). k \<noteq> 0 \<longrightarrow>
      finished (tstate (tasks (run 9 join_scenario) ! k))"
  proof (intro allI impI)
    fix k assume k: "k < length (tasks (run 9 join_scenario))" and k0: "k \<noteq> 0"
    from mt have len: "length (tasks (run 9 join_scenario)) = 3"
      by (metis length_map length_Cons list.size(3) numeral_3_eq_3)
    from k have nm: "tstate (tasks (run 9 join_scenario) ! k) =
        map tstate (tasks (run 9 join_scenario)) ! k" by simp
    from k len k0 have "k = 1 \<or> k = 2" by arith
    then show "finished (tstate (tasks (run 9 join_scenario) ! k))"
      unfolding nm mt by auto
  qed
  have nw: "now (run 9 join_scenario) = 6" by code_simp
  have a1: "0 < length (tasks (run 10 join_scenario))" by code_simp
  have a2: "tasks (run 10 join_scenario) ! 0 =
      \<lparr>coro = Wait_for_player_join None 5 (W_fut 0 2), tstate = Ready, must_cancel = False\<rparr>"
    by code_simp
  have a3: "0 < length (futs (run 10 join_scenario))" by code_simp
  have a4: "futs (run 10 join_scenario) ! 0 = Done (VStr ''s3cr3t'')" by code_simp
  have a5: "peer_latency (run 10 join_scenario) = Some 1" by code_simp
  have a6: "now (run 10 join_scenario) = 16" by code_simp
  have b1: "0 < length (tasks (run 12 join_scenario))" by code_simp
  have b2: "tasks (run 12 join_scenario) ! 0 =
      \<lparr>coro = Wait_for_player_join None 5 (W_unregister (VStr ''s3cr3t'')), tstate = Ready,
        must_cancel = False\<rparr>"
    by code_simp
  note inst = join_event_after_registration[OF reg lat p1 p2 sec tid tsk,
      of "[(''secret'', VStr ''other'')]" "run 10 join_scenario" 1 "run 12 join_scenario" 16
      "run 3 join_scenario"]
  from inst have r1:
    "futs (on_event ''ACTIVITY_JOIN'' [(''secret'', VStr ''s3cr3t'')] (run 9 join_scenario)) ! 0 =
       Done (VStr ''s3cr3t'')" by blast
  from inst have r2:
    "futs (on_event ''ACTIVITY_JOIN'' [(''secret'', VStr ''other'')]
          (on_event ''ACTIVITY_JOIN'' [(''secret'', VStr ''s3cr3t'')] (run 9 join_scenario))) ! 0 =
       Done (VStr ''s3cr3t'')" by blast
  from inst have r3:
    "0 \<in> set (ready (on_event ''ACTIVITY_JOIN'' [(''secret'', VStr ''s3cr3t'')]
        (run 9 join_scenario)))" by blast
  from inst a1 a2 a3 a4 a5 have r4:
    "tasks (step_task 0 (run 10 join_scenario)) ! 0 =
     \<lparr>coro = Wait_for_player_join None 5 (W_unregister (VStr ''s3cr3t'')),
       tstate = Sleeping (now (run 10 join_scenario) + 1), must_cancel = False\<rparr>" by blast
  from inst b1 b2 have r5:
    "state_of 0 (step_task 0 (run 12 join_scenario)) =
       Some (Finished (Returned (VStr ''s3cr3t''))) \<and>
     handler_of ''activity_join'' (step_task 0 (run 12 join_scenario)) = None" by blast
  from inst q1 q2 q3 have r6:
    "state_of 0 (run 4 (run 9 join_scenario)) = Some (Finished (Returned (VStr ''s3cr3t''))) \<and>
     handler_of ''activity_join'' (run 4 (run 9 join_scenario)) = None \<and>
     now (run 4 (run 9 join_scenario)) = max (now (run 9 join_scenario)) 16 + 1 \<and>
     loop_step (run 4 (run 9 join_scenario)) = None" by blast
  from r4 a6 have r4': "tasks (step_task 0 (run 10 join_scenario)) ! 0 =
     \<lparr>coro = Wait_for_player_join None 5 (W_unregister (VStr ''s3cr3t'')),
       tstate = Sleeping 17, must_cancel = False\<rparr>" by simp
  from r6 nw have r6': "now (run 4 (run 9 join_scenario)) = 17" by simp
  have n3: "handler_of ''activity_join'' (run 3 join_scenario) = None" by code_simp
  from inst n3 have r7:
    "on_event ''ACTIVITY_JOIN'' [(''secret'', VStr ''s3cr3t'')] (run 3 join_scenario) =
     run 3 join_scenario" by blast
  from reg p2 q2 r1 r2 r3 r4' r5 r6 r6' n3 r7 show ?thesis by blast
qed

end
